theory Spec2Isabelle
  imports Complex_Main "HOL-Library.Sublist"
begin

section \<open>Python values\<close>

text \<open>
  A Python \<open>str\<close> is a sequence of Unicode code points; it is modelled as a list of
  natural numbers, so that \<open>length\<close>, \<open>take\<close> and \<open>drop\<close> count what Python's
  \<open>len\<close> and slices count. The literals of the source are ASCII and written through \<open>u\<close>.
\<close>

type_synonym pystr = "nat list"

definition u :: "string \<Rightarrow> pystr" where
  "u s = map of_char s"

definition apostrophe :: pystr where
  "apostrophe = [39]"

text \<open>\<open>str.isspace\<close> on one code point: the white space table of CPython.\<close>

definition isspace :: "nat \<Rightarrow> bool" where
  "isspace c \<longleftrightarrow>
     (9 \<le> c \<and> c \<le> 13) \<or> (28 \<le> c \<and> c \<le> 32) \<or> c = 133 \<or> c = 160 \<or> c = 5760 \<or>
     (8192 \<le> c \<and> c \<le> 8202) \<or> c = 8232 \<or> c = 8233 \<or> c = 8239 \<or> c = 8287 \<or> c = 12288"

text \<open>\<open>s.strip()\<close>: white space removed at both ends.\<close>

definition strip :: "pystr \<Rightarrow> pystr" where
  "strip s = rev (dropWhile isspace (rev (dropWhile isspace s)))"

text \<open>\<open>s.split()\<close>: the maximal runs of non-space characters; \<open>cur\<close> is the run being
  read, reversed.\<close>

fun split_from :: "pystr \<Rightarrow> pystr \<Rightarrow> pystr list" where
  "split_from cur [] = (if cur = [] then [] else [rev cur])"
| "split_from cur (c # cs) =
     (if isspace c then (if cur = [] then split_from [] cs else rev cur # split_from [] cs)
      else split_from (c # cur) cs)"

definition split :: "pystr \<Rightarrow> pystr list" where
  "split s = split_from [] s"

text \<open>\<open>sub in s\<close> on strings.\<close>

fun contains :: "pystr \<Rightarrow> pystr \<Rightarrow> bool" where
  "contains sub [] = (sub = [])"
| "contains sub (c # cs) = (prefix sub (c # cs) \<or> contains sub cs)"

text \<open>\<open>sep.join(items)\<close>.\<close>

fun join :: "pystr \<Rightarrow> pystr list \<Rightarrow> pystr" where
  "join sep [] = []"
| "join sep [x] = x"
| "join sep (x # y # ys) = x @ sep @ join sep (y # ys)"

text \<open>\<open>str(n)\<close> for a non-negative integer, as the f-strings format the slide counters.\<close>

function str_nat :: "nat \<Rightarrow> pystr" where
  "str_nat n = (if n < 10 then [48 + n] else str_nat (n div 10) @ [48 + n mod 10])"
  by pat_completeness auto
termination
  by (relation "measure id") auto

declare str_nat.simps [simp del]

text \<open>The values a slide dictionary holds: the reader stores an integer, strings and a list
  of strings; \<open>None\<close> is there because a dictionary may hold it.\<close>

datatype pyval = PNone | PStr pystr | PInt int | PList "pyval list"

type_synonym slide = "string \<rightharpoonup> pyval"

text \<open>
  The exceptions that leave the constructor or a pass: the three the code raises itself, an
  exception raised by the progress callback, and an exception of the service that does not
  derive from \<open>Exception\<close>; the last two carry a description of the exception.
\<close>

datatype error =
    ImportError | ValueError | AttributeError
  | CallbackRaised pystr
  | BaseExceptionRaised pystr

section \<open>Narration styles\<close>

record style_config =
  name :: pystr
  description :: pystr
  temperature :: real
  prompt_style :: pystr

definition professional :: style_config where
  "professional = \<lparr>
     name = u ''Professional Lecturer'',
     description = u ''Formal, academic tone suitable for business and educational presentations'',
     temperature = 0.5,
     prompt_style = u ''formal and professional, like a university professor or corporate trainer''\<rparr>"

definition engaging :: style_config where
  "engaging = \<lparr>
     name = u ''Engaging Teacher'',
     description = u ''Conversational and friendly, like your favorite teacher explaining concepts'',
     temperature = 0.7,
     prompt_style = u ''conversational and engaging, like a favorite teacher who makes learning fun''\<rparr>"

definition enthusiastic :: style_config where
  "enthusiastic = \<lparr>
     name = u ''Enthusiastic Presenter'',
     description = u ''Energetic and passionate, great for motivational or sales presentations'',
     temperature = 0.8,
     prompt_style = u ''highly energetic and passionate, using vivid language and excitement''\<rparr>"

definition casual :: style_config where
  "casual = \<lparr>
     name = u ''Casual Explainer'',
     description = u ''Relaxed and friendly, using simple language and everyday analogies'',
     temperature = 0.7,
     prompt_style = u ''relaxed and friendly, using simple everyday language and relatable examples''\<rparr>"

definition storyteller :: style_config where
  "storyteller = \<lparr>
     name = u ''Story Teller'',
     description = u ''Narrative style that weaves information into a compelling story'',
     temperature = 0.8,
     prompt_style = u ''narrative and story-driven, connecting ideas into a flowing story''\<rparr>"

definition NARRATION_STYLES :: "pystr \<rightharpoonup> style_config" where
  "NARRATION_STYLES = map_of
     [(u ''professional'', professional),
      (u ''engaging'', engaging),
      (u ''enthusiastic'', enthusiastic),
      (u ''casual'', casual),
      (u ''storyteller'', storyteller)]"

text \<open>\<open>NARRATION_STYLES.get(style_key, NARRATION_STYLES["engaging"])\<close>.\<close>

definition get_style_config :: "pystr \<Rightarrow> style_config" where
  "get_style_config style_key =
     (case NARRATION_STYLES style_key of Some c \<Rightarrow> c | None \<Rightarrow> engaging)"

section \<open>The narrator and its surroundings\<close>

datatype sdk = NEW | OLD

text \<open>One entry of \<open>conversation_history\<close>, a dictionary with the keys
  \<open>slide_number\<close>, \<open>text\<close> and \<open>narration\<close>.\<close>

record context_entry =
  entry_slide_number :: nat
  entry_text :: pystr
  entry_narration :: pystr

text \<open>
  What a generation call gives back: \<open>response.text\<close>, which may be \<open>None\<close>; or an
  exception that derives from \<open>Exception\<close>, of which the code reads \<open>str(e)\<close> only; or an
  exception that does not (\<open>KeyboardInterrupt\<close>, \<open>SystemExit\<close>), which
  \<open>except Exception\<close> does not catch.
\<close>

datatype response = Text "pystr option" | Raise pystr | RaiseBase pystr

text \<open>
  The effects of a pass. A generation call is recorded with the
  attempt number, the prompt, the temperature handed to the service (none with the old SDK)
  and the answer. The log lines and the progress message are recorded by kind, not by
  their wording.
\<close>

datatype event =
    LogStyle pystr
  | Progress nat nat
  | Generate nat pystr "real option" response
  | LogSuccess nat
  | LogEmpty nat
  | LogApiKeyError pystr
  | LogRateLimit
  | LogFailed nat pystr
  | Sleep real
  | LogComplete nat

text \<open>
  The state a pass works on: the module constant \<open>SDK_VERSION\<close>, the fields of the
  narrator object, and the state of the generation service behind the client.
\<close>

record 'b state =
  SDK_VERSION :: sdk
  self_temperature :: real
  self_style :: pystr
  conversation_history :: "context_entry list"
  backend :: 'b

type_synonym 'b generate = "'b \<Rightarrow> pystr \<Rightarrow> real option \<Rightarrow> response \<times> 'b"

text \<open>
  A progress callback is called with a message; it returns normally (\<open>None\<close>) or raises
  (\<open>Some\<close> of a description of the exception). The argument \<open>progress_callback\<close> of a
  pass is \<open>None\<close> when no callback is supplied.
\<close>

type_synonym callback = "pystr \<Rightarrow> pystr option"

text \<open>\<open>get_gemini_api_key\<close>, given the value of the environment variable.\<close>

definition get_gemini_api_key :: "pystr option \<Rightarrow> pystr option" where
  "get_gemini_api_key env =
     (case env of None \<Rightarrow> None | Some k \<Rightarrow> if k \<noteq> [] then Some (strip k) else None)"

text \<open>
  \<open>AITeacherNarrator.__init__\<close> up to the creation of the client: the arguments
  \<open>temperature\<close> and \<open>style\<close> are optional, with defaults \<open>0.7\<close> and \<open>engaging\<close>.
\<close>

definition init ::
  "sdk option \<Rightarrow> pystr option \<Rightarrow> real option \<Rightarrow> pystr option \<Rightarrow> 'b \<Rightarrow> error + 'b state" where
  "init sdk_found env temperature_arg style_arg service =
     (case sdk_found of
        None \<Rightarrow> Inl ImportError
      | Some v \<Rightarrow>
          (case get_gemini_api_key env of
             None \<Rightarrow> Inl ValueError
           | Some api_key \<Rightarrow>
               if api_key = [] then Inl ValueError
               else Inr \<lparr>SDK_VERSION = v,
                         self_temperature = (case temperature_arg of None \<Rightarrow> 0.7 | Some t \<Rightarrow> t),
                         self_style = (case style_arg of None \<Rightarrow> u ''engaging'' | Some s \<Rightarrow> s),
                         conversation_history = [],
                         backend = service\<rparr>))"

section \<open>The prompt builder\<close>

text \<open>The three return expressions of \<open>_build_context_aware_prompt\<close>.\<close>

definition opener_template :: "nat \<Rightarrow> pystr \<Rightarrow> pystr \<Rightarrow> pystr" where
  "opener_template total_slides slide_text style_desc =
     u ''You are the presenter starting a '' @ str_nat total_slides @ u ''-slide presentation.\<newline>'' @
     u ''This is the Title Slide: '' @ apostrophe @ slide_text @ apostrophe @ u ''\<newline>\<newline>'' @
     u ''INSTRUCTIONS:\<newline>'' @
     u ''1. Start with 'Good morning everyone' (or a similar warm welcome).\<newline>'' @
     u ''2. Introduce the topic clearly.\<newline>'' @
     u ''3. Give a brief 1-sentence hook about what we will cover.\<newline>'' @
     u ''Tone: '' @ style_desc"

text \<open>Two lines of the closer template, named to be found again in a prompt.\<close>

definition signoff_instruction :: pystr where
  "signoff_instruction =
     u ''3. End with this exact sign-off: '' @ apostrophe @
     u ''Thank you for your attention, and I will see you next week.'' @ apostrophe @ u ''\<newline>''"

definition no_greeting_instruction :: pystr where
  "no_greeting_instruction = u ''2. Do NOT say 'Good morning' or introduce yourself.\<newline>''"

definition closer_template :: "pystr \<Rightarrow> pystr \<Rightarrow> pystr \<Rightarrow> pystr" where
  "closer_template context slide_text style_desc =
     u ''You are concluding a presentation. This is the Final Slide.\<newline>'' @
     u ''Context from previous slide: '' @ context @ u ''\<newline>'' @
     u ''Final Slide Content: '' @ slide_text @ u ''\<newline>\<newline>'' @
     u ''INSTRUCTIONS:\<newline>'' @
     u ''1. Briefly summarize the main takeaway.\<newline>'' @
     no_greeting_instruction @
     signoff_instruction @
     u ''Tone: '' @ style_desc"

definition body_template :: "nat \<Rightarrow> nat \<Rightarrow> pystr \<Rightarrow> pystr \<Rightarrow> pystr \<Rightarrow> pystr" where
  "body_template slide_number total_slides context slide_text style_desc =
     u ''You are narrating slide '' @ str_nat slide_number @ u '' of '' @ str_nat total_slides @
       u '' (Middle of presentation).\<newline>\<newline>'' @
     u ''PREVIOUS CONTEXT (flow from this):\<newline>'' @ context @ u ''\<newline>\<newline>'' @
     u ''CURRENT SLIDE CONTENT:\<newline>'' @ slide_text @ u ''\<newline>\<newline>'' @
     u ''STRICT INSTRUCTIONS:\<newline>'' @
     u ''1. Do NOT say 'Good morning', 'Hello', or 'Welcome' again.\<newline>'' @
     u ''2. Do NOT introduce yourself.\<newline>'' @
     u ''3. Use a transition phrase (e.g., 'Moving on...', 'Furthermore...', 'As we can see here...') to connect to the previous context.\<newline>'' @
     u ''4. Explain the current slide content naturally.\<newline>'' @
     u ''Tone: '' @ style_desc"

text \<open>The context of the closer: \<open>conversation_history[-1]['narration'][:100]\<close>.\<close>

definition closer_context :: "context_entry list \<Rightarrow> pystr" where
  "closer_context history =
     (if history \<noteq> [] then
        u ''Previous slide discussed: '' @ take 100 (entry_narration (last history)) @ u ''...''
      else [])"

text \<open>The context of a body slide: \<open>conversation_history[-2:]\<close>, of each entry
  \<open>narration[-150:]\<close>.\<close>

definition recent_context :: "context_entry list \<Rightarrow> context_entry list" where
  "recent_context history = drop (length history - 2) history"

definition prev_narration :: "context_entry \<Rightarrow> pystr" where
  "prev_narration prev_slide =
     drop (length (entry_narration prev_slide) - 150) (entry_narration prev_slide)"

definition context_item :: "context_entry \<Rightarrow> pystr" where
  "context_item prev_slide =
     u ''Slide '' @ str_nat (entry_slide_number prev_slide) @ u '' ended with: ...'' @
     prev_narration prev_slide"

definition body_context :: "context_entry list \<Rightarrow> pystr" where
  "body_context history =
     (if history \<noteq> [] then join (u ''\<newline>'') (map context_item (recent_context history))
      else [])"

definition build_context_aware_prompt ::
  "'b state \<Rightarrow> pystr \<Rightarrow> nat \<Rightarrow> nat \<Rightarrow> bool \<Rightarrow> pystr" where
  "build_context_aware_prompt self slide_text slide_number total_slides is_title =
     (let style_config = get_style_config (self_style self);
          style_desc = prompt_style style_config
      in if slide_number = 1 then
           opener_template total_slides slide_text style_desc
         else if slide_number = total_slides then
           closer_template (closer_context (conversation_history self)) slide_text style_desc
         else
           body_template slide_number total_slides
             (body_context (conversation_history self)) slide_text style_desc)"

section \<open>The generation pass\<close>

text \<open>\<open>narration and narration.strip()\<close> as a condition.\<close>

definition nonblank :: "pystr option \<Rightarrow> bool" where
  "nonblank narration =
     (case narration of None \<Rightarrow> False | Some n \<Rightarrow> n \<noteq> [] \<and> strip n \<noteq> [])"

definition set_narration :: "slide \<Rightarrow> pystr \<Rightarrow> slide" where
  "set_narration slide v = slide(''ai_narration'' \<mapsto> PStr v)"

text \<open>
  The retry loop \<open>for attempt in (1, 2)\<close> of one slide; \<open>evs\<close> are the effects so far
  for this slide, in order. A branch that ends in \<open>break\<close> returns at once; every other
  branch runs the pacing sleep at the end of the loop body and goes on with the remaining
  attempts. An exception that \<open>except Exception\<close> does not catch leaves the loop and the
  pass.
\<close>

fun attempt_loop ::
  "'b generate \<Rightarrow> nat \<Rightarrow> pystr \<Rightarrow> pystr \<Rightarrow> nat list \<Rightarrow> slide \<Rightarrow> 'b state \<Rightarrow> event list \<Rightarrow>
     error + slide \<times> 'b state \<times> event list" where
  "attempt_loop gen i text prompt [] slide st evs = Inr (slide, st, evs)"
| "attempt_loop gen i text prompt (attempt # rest) slide st evs =
     (let temp = (if SDK_VERSION st = NEW then Some (self_temperature st) else None);
          (resp, service) = gen (backend st) prompt temp;
          st1 = st\<lparr>backend := service\<rparr>;
          evs1 = evs @ [Generate attempt prompt temp resp]
      in case resp of
           Text narration \<Rightarrow>
             if nonblank narration then
               (let narration' = strip (case narration of Some n \<Rightarrow> n | None \<Rightarrow> []);
                    st2 = st1\<lparr>conversation_history := conversation_history st1 @
                            [\<lparr>entry_slide_number = i, entry_text = text,
                              entry_narration = narration'\<rparr>]\<rparr>
                in Inr (set_narration slide narration', st2, evs1 @ [LogSuccess i]))
             else
               (let evs2 = evs1 @ [LogEmpty attempt];
                    slide' = (if attempt = 2 then set_narration slide text else slide)
                in attempt_loop gen i text prompt rest slide' st1 (evs2 @ [Sleep 0.8]))
         | Raise error_msg \<Rightarrow>
             if contains (u ''403'') error_msg \<or> contains (u ''PERMISSION_DENIED'') error_msg then
               Inr (set_narration slide text, st1, evs1 @ [LogApiKeyError error_msg])
             else if contains (u ''429'') error_msg \<or> contains (u ''RESOURCE_EXHAUSTED'') error_msg then
               (let evs2 = evs1 @ [LogRateLimit, Sleep 5];
                    slide' = (if attempt = 2 then set_narration slide text else slide)
                in attempt_loop gen i text prompt rest slide' st1 (evs2 @ [Sleep 0.8]))
             else
               (let evs2 = evs1 @ [LogFailed attempt error_msg];
                    slide' = (if attempt = 2 then set_narration slide text else slide)
                in attempt_loop gen i text prompt rest slide' st1 (evs2 @ [Sleep 0.8]))
         | RaiseBase e \<Rightarrow> Inl (BaseExceptionRaised e))"

text \<open>\<open>slide.get("text", "").strip()\<close>: a value that is not a string has no \<open>strip\<close>.\<close>

definition get_text :: "slide \<Rightarrow> error + pystr" where
  "get_text slide =
     (case (case slide ''text'' of None \<Rightarrow> PStr [] | Some v \<Rightarrow> v) of
        PStr s \<Rightarrow> Inr (strip s)
      | _ \<Rightarrow> Inl AttributeError)"

text \<open>
  The message of the progress callback,
  \<open>f"... Generating narration {i}/{total} (with context)"\<close>; the four characters before
  the space are those of the source file as it is.
\<close>

definition progress_message :: "nat \<Rightarrow> nat \<Rightarrow> pystr" where
  "progress_message i total' =
     [240, 376, 164, 8211] @ u '' Generating narration '' @ str_nat i @ u ''/'' @ str_nat total' @
     u '' (with context)''"

text \<open>\<open>if progress_callback: progress_callback(...)\<close>: what the call raises, if anything,
  and the effect it leaves in the trace when it returns.\<close>

definition call_progress :: "callback option \<Rightarrow> nat \<Rightarrow> nat \<Rightarrow> pystr option" where
  "call_progress progress_callback i total' =
     (case progress_callback of None \<Rightarrow> None | Some f \<Rightarrow> f (progress_message i total'))"

definition progress_events :: "callback option \<Rightarrow> nat \<Rightarrow> nat \<Rightarrow> event list" where
  "progress_events progress_callback i total' =
     (case progress_callback of None \<Rightarrow> [] | Some f \<Rightarrow> [Progress i total'])"

text \<open>
  The body of the loop over the slides, for the slide at counter \<open>i\<close>: the slide and the
  state after it, and the effects of this iteration. The callback is called outside the
  \<open>try\<close>, so an exception it raises leaves the pass.
\<close>

definition narrate_slide ::
  "'b generate \<Rightarrow> callback option \<Rightarrow> nat \<Rightarrow> nat \<Rightarrow> slide \<Rightarrow> 'b state \<Rightarrow>
     error + slide \<times> 'b state \<times> event list" where
  "narrate_slide gen progress_callback total' i slide st =
     (case get_text slide of
        Inl e \<Rightarrow> Inl e
      | Inr text \<Rightarrow>
          if length text < 5 then Inr (set_narration slide text, st, [])
          else
            (case call_progress progress_callback i total' of
               Some e \<Rightarrow> Inl (CallbackRaised e)
             | None \<Rightarrow>
                 (let evs = progress_events progress_callback i total';
                      is_title = (i = 1 \<or> length (split text) < 15);
                      prompt = build_context_aware_prompt st text i total' is_title
                  in attempt_loop gen i text prompt [1, 2] slide st evs)))"

text \<open>
  The loop \<open>for i, slide in enumerate(slides_data, 1)\<close>; \<open>tr\<close> is the trace of the pass
  so far, each effect with the counter \<open>i\<close> of the slide it belongs to.
\<close>

fun narrate_loop ::
  "'b generate \<Rightarrow> callback option \<Rightarrow> nat \<Rightarrow> nat \<Rightarrow> slide list \<Rightarrow> 'b state \<Rightarrow> (nat \<times> event) list \<Rightarrow>
     error + slide list \<times> 'b state \<times> (nat \<times> event) list" where
  "narrate_loop gen progress_callback total' i [] st tr = Inr ([], st, tr)"
| "narrate_loop gen progress_callback total' i (slide # rest) st tr =
     (case narrate_slide gen progress_callback total' i slide st of
        Inl e \<Rightarrow> Inl e
      | Inr (slide', st', evs) \<Rightarrow>
          (case narrate_loop gen progress_callback total' (Suc i) rest st' (tr @ map (Pair i) evs) of
             Inl e \<Rightarrow> Inl e
           | Inr (rest', st'', tr') \<Rightarrow> Inr (slide' # rest', st'', tr')))"

text \<open>
  \<open>AITeacherNarrator.narrate_slides\<close>: the slides as they are after the pass, the state
  after it, and the trace of the pass (counter \<open>0\<close> for the two log lines outside the loop).
\<close>

definition narrate_slides ::
  "'b generate \<Rightarrow> callback option \<Rightarrow> slide list \<Rightarrow> 'b state \<Rightarrow>
     error + slide list \<times> 'b state \<times> (nat \<times> event) list" where
  "narrate_slides gen progress_callback slides_data st =
     (let total' = length slides_data;
          st0 = st\<lparr>conversation_history := []\<rparr>;
          tr0 = [(0, LogStyle (name (get_style_config (self_style st0))))]
      in case narrate_loop gen progress_callback total' 1 slides_data st0 tr0 of
           Inl e \<Rightarrow> Inl e
         | Inr (out, st1, tr) \<Rightarrow> Inr (out, st1, tr @ [(0, LogComplete total')]))"

section \<open>Reading a trace\<close>

text \<open>The effects that belong to the slide at counter \<open>i\<close>, and the generation calls among
  a list of effects.\<close>

definition events_of :: "nat \<Rightarrow> (nat \<times> event) list \<Rightarrow> event list" where
  "events_of i tr = map snd (filter (\<lambda>p. fst p = i) tr)"

fun is_generate :: "event \<Rightarrow> bool" where
  "is_generate (Generate attempt prompt temp resp) = True"
| "is_generate _ = False"

definition generate_calls :: "event list \<Rightarrow> event list" where
  "generate_calls evs = filter is_generate evs"

text \<open>The slide dictionaries a pass accepts without an error: \<open>text\<close>, when present, is a
  string.\<close>

definition text_is_str :: "slide \<Rightarrow> bool" where
  "text_is_str slide =
     (case slide ''text'' of None \<Rightarrow> True | Some (PStr s) \<Rightarrow> True | Some _ \<Rightarrow> False)"

text \<open>The entries of the history that belong to slides before the counter \<open>k\<close>: the history
  as it is when the prompt of slide \<open>k\<close> is built.\<close>

definition history_before :: "nat \<Rightarrow> 'b state \<Rightarrow> context_entry list" where
  "history_before k st = filter (\<lambda>e. entry_slide_number e < k) (conversation_history st)"

section \<open>Outcomes of an attempt\<close>

text \<open>
  The five ways an iteration of the retry loop can go on to the next statement, read off the
  conditions of the loop body, and the one way it cannot (an exception that is not caught);
  the temperature the loop hands to the service; and what a trace shows of them.
\<close>

datatype outcome =
  Success | EmptyResponse | AuthorizationError | RateLimitError | OtherError | Uncaught

definition outcome_of :: "response \<Rightarrow> outcome" where
  "outcome_of resp =
     (case resp of
        Text narration \<Rightarrow> if nonblank narration then Success else EmptyResponse
      | Raise error_msg \<Rightarrow>
          if contains (u ''403'') error_msg \<or> contains (u ''PERMISSION_DENIED'') error_msg
          then AuthorizationError
          else if contains (u ''429'') error_msg \<or> contains (u ''RESOURCE_EXHAUSTED'') error_msg
          then RateLimitError
          else OtherError
      | RaiseBase e \<Rightarrow> Uncaught)"

definition call_temperature :: "'b state \<Rightarrow> real option" where
  "call_temperature st = (if SDK_VERSION st = NEW then Some (self_temperature st) else None)"

definition retry_log :: "nat \<Rightarrow> response \<Rightarrow> event list" where
  "retry_log attempt resp =
     (case resp of
        Text narration \<Rightarrow> [LogEmpty attempt]
      | Raise error_msg \<Rightarrow>
          if outcome_of resp = RateLimitError then [LogRateLimit, Sleep 5]
          else [LogFailed attempt error_msg]
      | RaiseBase e \<Rightarrow> [])"

fun iterations :: "event list \<Rightarrow> event list list" where
  "iterations [] = []"
| "iterations (e # es) =
     (if is_generate e then (e # takeWhile (\<lambda>x. \<not> is_generate x) es) # iterations es
      else iterations es)"

definition pacing_sleep :: event where
  "pacing_sleep = Sleep 0.8"

definition paced :: "event list \<Rightarrow> bool" where
  "paced it \<longleftrightarrow>
     (\<exists>a p t r more. it = Generate a p t r # more \<and> outcome_of r \<noteq> Uncaught \<and>
        (if outcome_of r = Success \<or> outcome_of r = AuthorizationError
         then pacing_sleep \<notin> set more
         else more \<noteq> [] \<and> last more = pacing_sleep))"

definition no_success :: "event list \<Rightarrow> bool" where
  "no_success evs \<longleftrightarrow> (\<forall>a p t r. Generate a p t r \<in> set evs \<longrightarrow> outcome_of r \<noteq> Success)"

section \<open>Example inputs\<close>

text \<open>A narrator as the constructor builds it from its defaults, with the new SDK and a
  service that has no state of its own.\<close>

definition narrator_default :: "unit state" where
  "narrator_default =
     \<lparr>SDK_VERSION = NEW, self_temperature = 0.7, self_style = u ''engaging'',
      conversation_history = [], backend = ()\<rparr>"

text \<open>A first slide as the reader extracts it, and a service that answers every call with
  the same sentence, white space around it.\<close>

definition slide_intro :: slide where
  "slide_intro = [''slide_number'' \<mapsto> PInt 1, ''text'' \<mapsto> PStr (u ''Intro to Topic'')]"

definition canned_service :: "unit generate" where
  "canned_service b prompt temp = (Text (Some (u '' Welcome, everyone. '')), b)"

text \<open>A slide whose text has white space around a single letter.\<close>

definition slide_padded :: slide where
  "slide_padded = [''slide_number'' \<mapsto> PInt 1, ''text'' \<mapsto> PStr (u '' a '')]"

text \<open>A slide whose text ends in a space, a service whose answers are white space, and a service
  that refuses every call.\<close>

definition slide_hello :: slide where
  "slide_hello = [''slide_number'' \<mapsto> PInt 1, ''text'' \<mapsto> PStr (u ''hello '')]"

definition blank_service :: "unit generate" where
  "blank_service b prompt temp = (Text (Some (u ''  '')), b)"

definition forbidden_service :: "unit generate" where
  "forbidden_service b prompt temp = (Raise (u ''403 PERMISSION_DENIED''), b)"

text \<open>The narrator that the constructor builds for the style \<open>professional\<close> when no
  temperature is given.\<close>

definition narrator_professional :: "unit state" where
  "narrator_professional =
     \<lparr>SDK_VERSION = NEW, self_temperature = 0.7, self_style = u ''professional'',
      conversation_history = [], backend = ()\<rparr>"

text \<open>The deck of three slides of the end-to-end example, the history entries of its slides
  when every call answers with the canned sentence, and the trace of that pass.\<close>

definition slide_growth :: slide where
  "slide_growth =
     [''slide_number'' \<mapsto> PInt 2, ''text'' \<mapsto> PStr (u ''Topic has grown 40% since 2020'')]"

definition slide_thanks :: slide where
  "slide_thanks = [''slide_number'' \<mapsto> PInt 3, ''text'' \<mapsto> PStr (u ''Thank you'')]"

definition entry_intro :: context_entry where
  "entry_intro = \<lparr>entry_slide_number = 1, entry_text = u ''Intro to Topic'',
     entry_narration = u ''Welcome, everyone.''\<rparr>"

definition entry_growth :: context_entry where
  "entry_growth = \<lparr>entry_slide_number = 2, entry_text = u ''Topic has grown 40% since 2020'',
     entry_narration = u ''Welcome, everyone.''\<rparr>"

definition entry_thanks :: context_entry where
  "entry_thanks = \<lparr>entry_slide_number = 3, entry_text = u ''Thank you'',
     entry_narration = u ''Welcome, everyone.''\<rparr>"

definition deck_trace :: "(nat \<times> event) list" where
  "deck_trace =
     [(0, LogStyle (u ''Engaging Teacher'')),
      (1, Generate 1 (opener_template 3 (u ''Intro to Topic'') (prompt_style engaging))
            (Some 0.7) (Text (Some (u '' Welcome, everyone. '')))),
      (1, LogSuccess 1),
      (2, Generate 1 (body_template 2 3 (body_context [entry_intro])
               (u ''Topic has grown 40% since 2020'') (prompt_style engaging))
            (Some 0.7) (Text (Some (u '' Welcome, everyone. '')))),
      (2, LogSuccess 2),
      (3, Generate 1 (closer_template (closer_context [entry_intro, entry_growth])
               (u ''Thank you'') (prompt_style engaging))
            (Some 0.7) (Text (Some (u '' Welcome, everyone. '')))),
      (3, LogSuccess 3),
      (0, LogComplete 3)]"

text \<open>A slide whose \<open>text\<close> is \<open>None\<close>, a callback that returns, a callback that raises, and
  a service that is interrupted.\<close>

definition slide_none :: slide where
  "slide_none = [''slide_number'' \<mapsto> PInt 1, ''text'' \<mapsto> PNone]"

definition quiet_callback :: callback where
  "quiet_callback message = None"

definition failing_callback :: callback where
  "failing_callback message = Some (u ''RuntimeError'')"

definition interrupted_service :: "unit generate" where
  "interrupted_service b prompt temp = (RaiseBase (u ''KeyboardInterrupt''), b)"

section \<open>The retry loop of one slide\<close>

lemma set_narration_other: "k \<noteq> ''ai_narration'' \<Longrightarrow> set_narration slide v k = slide k"
  by (simp add: set_narration_def)

lemma set_narration_self: "set_narration slide v ''ai_narration'' = Some (PStr v)"
  by (simp add: set_narration_def)

lemma attempt_loop_success:
  assumes "gen (backend st) prompt (call_temperature st) = (Text (Some n), service)"
    and "strip n \<noteq> []"
  shows "attempt_loop gen i text prompt (a # rest) slide st evs =
    Inr (set_narration slide (strip n),
     st\<lparr>backend := service,
        conversation_history := conversation_history st @
          [\<lparr>entry_slide_number = i, entry_text = text, entry_narration = strip n\<rparr>]\<rparr>,
     evs @ [Generate a prompt (call_temperature st) (Text (Some n)), LogSuccess i])"
proof -
  have "n \<noteq> []" using assms(2) by (auto simp: strip_def)
  then show ?thesis using assms
    by (simp add: call_temperature_def nonblank_def Let_def)
qed

lemma attempt_loop_auth:
  assumes "gen (backend st) prompt (call_temperature st) = (Raise msg, service)"
    and "outcome_of (Raise msg) = AuthorizationError"
  shows "attempt_loop gen i text prompt (a # rest) slide st evs =
    Inr (set_narration slide text, st\<lparr>backend := service\<rparr>,
     evs @ [Generate a prompt (call_temperature st) (Raise msg), LogApiKeyError msg])"
  using assms
  by (auto simp: call_temperature_def outcome_of_def Let_def split: if_splits)

lemma attempt_loop_retry:
  assumes "gen (backend st) prompt (call_temperature st) = (resp, service)"
    and "outcome_of resp \<noteq> Success" and "outcome_of resp \<noteq> AuthorizationError"
    and "outcome_of resp \<noteq> Uncaught"
  shows "attempt_loop gen i text prompt (a # rest) slide st evs =
    attempt_loop gen i text prompt rest (if a = 2 then set_narration slide text else slide)
      (st\<lparr>backend := service\<rparr>)
      (evs @ Generate a prompt (call_temperature st) resp # retry_log a resp @ [Sleep 0.8])"
  using assms
  by (cases resp)
     (auto simp: call_temperature_def outcome_of_def retry_log_def Let_def split: if_splits)

lemma outcome_success:
  "outcome_of resp = Success \<longleftrightarrow> (\<exists>n. resp = Text (Some n) \<and> strip n \<noteq> [])"
  by (cases resp) (auto simp: outcome_of_def nonblank_def strip_def split: option.splits if_splits)

lemma outcome_auth:
  "outcome_of resp = AuthorizationError \<Longrightarrow> \<exists>msg. resp = Raise msg"
  by (cases resp) (auto simp: outcome_of_def split: if_splits)

lemma outcome_uncaught:
  "outcome_of resp = Uncaught \<longleftrightarrow> (\<exists>e. resp = RaiseBase e)"
  by (cases resp) (auto simp: outcome_of_def split: if_splits)

lemma attempt_loop_uncaught:
  assumes "gen (backend st) prompt (call_temperature st) = (RaiseBase e, service)"
  shows "attempt_loop gen i text prompt (a # rest) slide st evs = Inl (BaseExceptionRaised e)"
  using assms by (simp add: call_temperature_def Let_def)

declare attempt_loop.simps(2) [simp del]

lemma call_temperature_backend [simp]:
  "call_temperature (st\<lparr>backend := b\<rparr>) = call_temperature st"
  by (simp add: call_temperature_def)

text \<open>One step of the retry loop ends in one of four ways.\<close>

lemma attempt_loop_step:
  obtains
    (success) n service where
      "gen (backend st) prompt (call_temperature st) = (Text (Some n), service)"
      "strip n \<noteq> []"
      "attempt_loop gen i text prompt (a # rest) slide st evs =
        Inr (set_narration slide (strip n),
         st\<lparr>backend := service,
            conversation_history := conversation_history st @
              [\<lparr>entry_slide_number = i, entry_text = text, entry_narration = strip n\<rparr>]\<rparr>,
         evs @ [Generate a prompt (call_temperature st) (Text (Some n)), LogSuccess i])"
  | (auth) msg service where
      "gen (backend st) prompt (call_temperature st) = (Raise msg, service)"
      "outcome_of (Raise msg) = AuthorizationError"
      "attempt_loop gen i text prompt (a # rest) slide st evs =
        Inr (set_narration slide text, st\<lparr>backend := service\<rparr>,
         evs @ [Generate a prompt (call_temperature st) (Raise msg), LogApiKeyError msg])"
  | (retry) resp service where
      "gen (backend st) prompt (call_temperature st) = (resp, service)"
      "outcome_of resp \<noteq> Success" "outcome_of resp \<noteq> AuthorizationError"
      "attempt_loop gen i text prompt (a # rest) slide st evs =
        attempt_loop gen i text prompt rest (if a = 2 then set_narration slide text else slide)
          (st\<lparr>backend := service\<rparr>)
          (evs @ Generate a prompt (call_temperature st) resp # retry_log a resp @ [Sleep 0.8])"
      "outcome_of resp \<noteq> Uncaught"
  | (uncaught) e service where
      "gen (backend st) prompt (call_temperature st) = (RaiseBase e, service)"
      "attempt_loop gen i text prompt (a # rest) slide st evs = Inl (BaseExceptionRaised e)"
proof -
  obtain resp service where g: "gen (backend st) prompt (call_temperature st) = (resp, service)"
    by (cases "gen (backend st) prompt (call_temperature st)")
  consider "outcome_of resp = Success" | "outcome_of resp = AuthorizationError"
    | "outcome_of resp \<noteq> Success \<and> outcome_of resp \<noteq> AuthorizationError \<and>
       outcome_of resp \<noteq> Uncaught"
    | "outcome_of resp = Uncaught"
    by blast
  then show thesis
  proof cases
    case 1
    then obtain n where n: "resp = Text (Some n)" "strip n \<noteq> []"
      using outcome_success by blast
    show thesis
      using success [of n service] attempt_loop_success [of gen st prompt n service] g n
      by simp
  next
    case 2
    then obtain msg where m: "resp = Raise msg" using outcome_auth by blast
    show thesis
      using auth [of msg service] attempt_loop_auth [of gen st prompt msg service] g m 2
      by simp
  next
    case 3
    show thesis
      using retry [of resp service] attempt_loop_retry [of gen st prompt resp service] g 3
      by simp
  next
    case 4
    then obtain e where "resp = RaiseBase e" using outcome_uncaught by blast
    then show thesis
      using uncaught [of e service] attempt_loop_uncaught [of gen st prompt e service] g
      by simp
  qed
qed

lemma progress_events_no_call [simp]:
  "e \<in> set (progress_events cb i n) \<Longrightarrow> \<not> is_generate e"
  by (auto simp: progress_events_def split: option.splits)

lemma progress_events_no_generate [simp]:
  "Generate a p t r \<notin> set (progress_events cb i n)"
  by (auto simp: progress_events_def split: option.splits)

lemma attempt_loop_frame:
  "attempt_loop gen i text prompt atts slide st evs = Inr (slide', st', evs') \<Longrightarrow>
   k \<noteq> ''ai_narration'' \<Longrightarrow> slide' k = slide k"
proof (induction atts arbitrary: slide st evs)
  case Nil
  then show ?case by simp
next
  case (Cons a atts)
  show ?case
  proof (cases rule: attempt_loop_step [of gen st prompt i "text" a atts slide evs])
    case (success n service)
    with Cons.prems show ?thesis by (auto simp: set_narration_other)
  next
    case (auth msg service)
    with Cons.prems show ?thesis by (auto simp: set_narration_other)
  next
    case (retry resp service)
    from retry(4) Cons.prems(1)
    have "attempt_loop gen i text prompt atts (if a = 2 then set_narration slide text else slide)
            (st\<lparr>backend := service\<rparr>)
            (evs @ Generate a prompt (call_temperature st) resp # retry_log a resp @ [Sleep 0.8])
          = Inr (slide', st', evs')"
      by simp
    from Cons.IH [OF this Cons.prems(2)] show ?thesis
      using Cons.prems(2) by (simp add: set_narration_other split: if_splits)
  next
    case (uncaught e service)
    with Cons.prems show ?thesis by simp
  qed
qed

lemma attempt_loop_config:
  "attempt_loop gen i text prompt atts slide st evs = Inr (slide', st', evs') \<Longrightarrow>
   SDK_VERSION st' = SDK_VERSION st \<and> self_temperature st' = self_temperature st \<and>
   self_style st' = self_style st"
proof (induction atts arbitrary: slide st evs)
  case Nil
  then show ?case by simp
next
  case (Cons a atts)
  show ?case
  proof (cases rule: attempt_loop_step [of gen st prompt i "text" a atts slide evs])
    case (success n service)
    with Cons.prems show ?thesis by auto
  next
    case (auth msg service)
    with Cons.prems show ?thesis by auto
  next
    case (retry resp service)
    from retry(4) Cons.prems(1)
    have "attempt_loop gen i text prompt atts (if a = 2 then set_narration slide text else slide)
            (st\<lparr>backend := service\<rparr>)
            (evs @ Generate a prompt (call_temperature st) resp # retry_log a resp @ [Sleep 0.8])
          = Inr (slide', st', evs')"
      by simp
    from Cons.IH [OF this] show ?thesis by simp
  next
    case (uncaught e service)
    with Cons.prems show ?thesis by simp
  qed
qed

lemma retry_log_no_generate: "e \<in> set (retry_log a resp) \<Longrightarrow> \<not> is_generate e"
  by (cases resp) (auto simp: retry_log_def split: if_splits)

lemma retry_log_no_pacing: "pacing_sleep \<notin> set (retry_log a resp)"
  by (cases resp) (auto simp: retry_log_def pacing_sleep_def)

lemma iterations_skip:
  "\<forall>x\<in>set xs. \<not> is_generate x \<Longrightarrow> iterations (xs @ ys) = iterations ys"
  by (induction xs) auto

lemma takeWhile_head:
  "ys = [] \<or> is_generate (hd ys) \<Longrightarrow> takeWhile (\<lambda>x. \<not> is_generate x) ys = []"
  by (cases ys) auto

lemma takeWhile_trail:
  "\<forall>x\<in>set xs. \<not> is_generate x \<Longrightarrow> ys = [] \<or> is_generate (hd ys) \<Longrightarrow>
   takeWhile (\<lambda>x. \<not> is_generate x) (xs @ ys) = xs"
proof (induction xs)
  case Nil
  then show ?case by (cases ys) auto
next
  case (Cons x xs)
  then show ?case by simp
qed

lemma iterations_call:
  assumes "is_generate g" "\<forall>x\<in>set xs. \<not> is_generate x" "ys = [] \<or> is_generate (hd ys)"
  shows "iterations (g # xs @ ys) = (g # xs) # iterations ys"
  using assms by (simp add: takeWhile_head iterations_skip)

text \<open>What the retry loop adds to the effects of the slide.\<close>

lemma attempt_loop_events:
  "attempt_loop gen i text prompt atts slide st evs = Inr (slide', st', evs') \<Longrightarrow>
   \<exists>new. evs' = evs @ new \<and>
     (new = [] \<or> is_generate (hd new)) \<and>
     (atts \<noteq> [] \<longrightarrow> (\<exists>rest. new = Generate (hd atts) prompt (call_temperature st)
         (fst (gen (backend st) prompt (call_temperature st))) # rest)) \<and>
     (\<forall>e\<in>set new. is_generate e \<longrightarrow>
         (\<exists>a r. e = Generate a prompt (call_temperature st) r \<and> a \<in> set atts)) \<and>
     length (generate_calls new) \<le> length atts \<and>
     (\<forall>it\<in>set (iterations new). paced it)"
proof (induction atts arbitrary: slide st evs)
  case Nil
  then show ?case by (simp add: generate_calls_def)
next
  case (Cons a atts)
  let ?t = "call_temperature st"
  show ?case
  proof (cases rule: attempt_loop_step [of gen st prompt i "text" a atts slide evs])
    case (success n service)
    let ?new = "[Generate a prompt ?t (Text (Some n)), LogSuccess i]"
    have o: "outcome_of (Text (Some n)) = Success"
      using success(2) outcome_success by blast
    have "evs' = evs @ ?new" using success(3) Cons.prems by simp
    moreover have "\<forall>it\<in>set (iterations ?new). paced it"
      using o by (simp add: paced_def pacing_sleep_def)
    ultimately show ?thesis
      using success(1) by (intro exI [of _ ?new]) (simp add: generate_calls_def)
  next
    case (auth msg service)
    let ?new = "[Generate a prompt ?t (Raise msg), LogApiKeyError msg]"
    have "evs' = evs @ ?new" using auth(3) Cons.prems by simp
    moreover have "\<forall>it\<in>set (iterations ?new). paced it"
      using auth(2) by (simp add: paced_def pacing_sleep_def)
    ultimately show ?thesis
      using auth(1) by (intro exI [of _ ?new]) (simp add: generate_calls_def)
  next
    case (retry resp service)
    let ?g = "Generate a prompt ?t resp"
    let ?trail = "retry_log a resp @ [Sleep 0.8]"
    from retry(4) Cons.prems
    have "attempt_loop gen i text prompt atts (if a = 2 then set_narration slide text else slide)
            (st\<lparr>backend := service\<rparr>) (evs @ ?g # ?trail) = Inr (slide', st', evs')"
      by simp
    from Cons.IH [OF this] obtain new where new:
      "evs' = (evs @ ?g # ?trail) @ new"
      "new = [] \<or> is_generate (hd new)"
      "\<forall>e\<in>set new. is_generate e \<longrightarrow> (\<exists>a r. e = Generate a prompt ?t r \<and> a \<in> set atts)"
      "length (generate_calls new) \<le> length atts"
      "\<forall>it\<in>set (iterations new). paced it"
      by auto
    have trail: "\<forall>x\<in>set ?trail. \<not> is_generate x"
      using retry_log_no_generate by auto
    have it: "iterations (?g # ?trail @ new) = (?g # ?trail) # iterations new"
      using iterations_call [OF _ trail new(2), of ?g] by simp
    have p: "paced (?g # ?trail)"
      using retry(2,3,5) by (simp add: paced_def pacing_sleep_def)
    have gc: "generate_calls (?g # ?trail @ new) = ?g # generate_calls new"
      using trail by (simp add: generate_calls_def)
    show ?thesis
    proof (intro exI [of _ "?g # ?trail @ new"] conjI)
      show "evs' = evs @ ?g # ?trail @ new" using new(1) by simp
      show "?g # ?trail @ new = [] \<or> is_generate (hd (?g # ?trail @ new))" by simp
      show "a # atts \<noteq> [] \<longrightarrow> (\<exists>rest. ?g # ?trail @ new =
          Generate (hd (a # atts)) prompt ?t (fst (gen (backend st) prompt ?t)) # rest)"
        using retry(1) by simp
      show "\<forall>e\<in>set (?g # ?trail @ new). is_generate e \<longrightarrow>
          (\<exists>a' r. e = Generate a' prompt ?t r \<and> a' \<in> set (a # atts))"
        using new(3) trail by auto
      show "length (generate_calls (?g # ?trail @ new)) \<le> length (a # atts)"
        using new(4) gc by simp
      show "\<forall>it\<in>set (iterations (?g # ?trail @ new)). paced it"
        using it p new(5) by simp
    qed
  next
    case (uncaught e service)
    with Cons.prems show ?thesis by simp
  qed
qed

lemma no_success_retry:
  assumes "outcome_of resp \<noteq> Success" "no_success new"
  shows "no_success (Generate a p t resp # retry_log a resp @ Sleep d # new)"
proof -
  have "Generate a' p' t' r' \<notin> set (retry_log a resp)" for a' p' t' r'
    using retry_log_no_generate [of "Generate a' p' t' r'" a resp] by auto
  then show ?thesis
    using assms unfolding no_success_def by auto
qed

lemma attempt_loop_history:
  "attempt_loop gen i text prompt atts slide st evs = Inr (slide', st', evs') \<Longrightarrow>
   \<exists>new. evs' = evs @ new \<and>
     ((conversation_history st' = conversation_history st \<and> no_success new \<and>
       (atts \<noteq> [] \<and> last atts = 2 \<longrightarrow> slide' ''ai_narration'' = Some (PStr text)))
      \<or> (\<exists>a n. strip n \<noteq> [] \<and>
            conversation_history st' = conversation_history st @
              [\<lparr>entry_slide_number = i, entry_text = text, entry_narration = strip n\<rparr>] \<and>
            Generate a prompt (call_temperature st) (Text (Some n)) \<in> set new \<and>
            slide' ''ai_narration'' = Some (PStr (strip n))))"
proof (induction atts arbitrary: slide st evs)
  case Nil
  then show ?case by (simp add: no_success_def)
next
  case (Cons a atts)
  let ?t = "call_temperature st"
  show ?case
  proof (cases rule: attempt_loop_step [of gen st prompt i "text" a atts slide evs])
    case (success n service)
    let ?new = "[Generate a prompt ?t (Text (Some n)), LogSuccess i]"
    have "evs' = evs @ ?new" "slide' = set_narration slide (strip n)"
      "conversation_history st' = conversation_history st @
          [\<lparr>entry_slide_number = i, entry_text = text, entry_narration = strip n\<rparr>]"
      using success(3) Cons.prems by auto
    then show ?thesis
      using success(2) by (intro exI [of _ ?new]) (auto simp: set_narration_self)
  next
    case (auth msg service)
    let ?new = "[Generate a prompt ?t (Raise msg), LogApiKeyError msg]"
    have "evs' = evs @ ?new" "slide' = set_narration slide text"
      "conversation_history st' = conversation_history st"
      using auth(3) Cons.prems by auto
    moreover have "no_success ?new"
      using auth(2) by (simp add: no_success_def)
    ultimately show ?thesis
      by (intro exI [of _ ?new]) (simp add: set_narration_self)
  next
    case (retry resp service)
    let ?g = "Generate a prompt ?t resp"
    let ?trail = "retry_log a resp @ [Sleep 0.8]"
    let ?slide = "if a = 2 then set_narration slide text else slide"
    from retry(4) Cons.prems
    have run: "attempt_loop gen i text prompt atts ?slide
            (st\<lparr>backend := service\<rparr>) (evs @ ?g # ?trail) = Inr (slide', st', evs')"
      by simp
    from Cons.IH [OF this] obtain new where new: "evs' = (evs @ ?g # ?trail) @ new"
      and alt: "(conversation_history st' = conversation_history st \<and> no_success new \<and>
          (atts \<noteq> [] \<and> last atts = 2 \<longrightarrow> slide' ''ai_narration'' = Some (PStr text)))
        \<or> (\<exists>a n. strip n \<noteq> [] \<and>
            conversation_history st' = conversation_history st @
              [\<lparr>entry_slide_number = i, entry_text = text, entry_narration = strip n\<rparr>] \<and>
            Generate a prompt ?t (Text (Some n)) \<in> set new \<and>
            slide' ''ai_narration'' = Some (PStr (strip n)))"
      by auto
    have e: "evs' = evs @ (?g # ?trail @ new)" using new by simp
    from alt show ?thesis
    proof
      assume A: "conversation_history st' = conversation_history st \<and> no_success new \<and>
          (atts \<noteq> [] \<and> last atts = 2 \<longrightarrow> slide' ''ai_narration'' = Some (PStr text))"
      have ns: "no_success (?g # ?trail @ new)"
        using no_success_retry [OF retry(2), of new a prompt ?t "0.8"] A by simp
      have "last (a # atts) = 2 \<longrightarrow> slide' ''ai_narration'' = Some (PStr text)"
      proof (cases "atts = []")
        case True
        with run have "slide' = ?slide" by simp
        with True show ?thesis by (simp add: set_narration_self)
      next
        case False
        with A show ?thesis by simp
      qed
      with A ns e show ?thesis by (intro exI [of _ "?g # ?trail @ new"]) simp
    next
      assume "\<exists>a n. strip n \<noteq> [] \<and>
            conversation_history st' = conversation_history st @
              [\<lparr>entry_slide_number = i, entry_text = text, entry_narration = strip n\<rparr>] \<and>
            Generate a prompt ?t (Text (Some n)) \<in> set new \<and>
            slide' ''ai_narration'' = Some (PStr (strip n))"
      then obtain a' n where B: "strip n \<noteq> []"
        "conversation_history st' = conversation_history st @
              [\<lparr>entry_slide_number = i, entry_text = text, entry_narration = strip n\<rparr>]"
        "Generate a' prompt ?t (Text (Some n)) \<in> set new"
        "slide' ''ai_narration'' = Some (PStr (strip n))"
        by blast
      have "Generate a' prompt ?t (Text (Some n)) \<in> set (?g # ?trail @ new)"
        using B(3) by simp
      with B e show ?thesis
        by (intro exI [of _ "?g # ?trail @ new"]) blast
    qed
  next
    case (uncaught e service)
    with Cons.prems show ?thesis by simp
  qed
qed


lemma get_text_typed: "text_is_str slide \<longleftrightarrow> (\<exists>t. get_text slide = Inr t)"
  by (auto simp: text_is_str_def get_text_def split: option.splits pyval.splits)

lemma narrate_slide_cases:
  assumes "narrate_slide gen cb total' i slide st = Inr (slide', st', evs)"
  obtains
    (trivial) t where "get_text slide = Inr t" "length t < 5"
      "slide' = set_narration slide t" "st' = st" "evs = []"
  | (generated) t where "get_text slide = Inr t" "5 \<le> length t"
      "attempt_loop gen i t
         (build_context_aware_prompt st t i total' (i = 1 \<or> length (split t) < 15))
         [1, 2] slide st (progress_events cb i total') = Inr (slide', st', evs)"
      "call_progress cb i total' = None"
proof -
  from assms obtain t where t: "get_text slide = Inr t"
    by (auto simp: narrate_slide_def split: sum.splits)
  show thesis
  proof (cases "length t < 5")
    case True
    with assms t show ?thesis by (intro trivial [of t]) (auto simp: narrate_slide_def)
  next
    case False
    with assms t show ?thesis
      by (intro generated [of t]) (auto simp: narrate_slide_def Let_def split: option.splits)
  qed
qed

lemma call_progress_None [simp]: "call_progress None i n = None"
  by (simp add: call_progress_def)

lemma progress_events_None [simp]: "progress_events None i n = []"
  by (simp add: progress_events_def)

text \<open>When the service raises nothing that \<open>except Exception\<close> lets through, the retry
  loop returns.\<close>

lemma attempt_loop_returns:
  assumes "\<forall>b p temp. outcome_of (fst (gen b p temp)) \<noteq> Uncaught"
  shows "\<exists>r. attempt_loop gen i text prompt atts slide st evs = Inr r"
proof (induction atts arbitrary: slide st evs)
  case Nil
  then show ?case by simp
next
  case (Cons a atts)
  show ?case
  proof (cases rule: attempt_loop_step [of gen st prompt i "text" a atts slide evs])
    case (success n service)
    then show ?thesis by simp
  next
    case (auth msg service)
    then show ?thesis by simp
  next
    case (retry resp service)
    with Cons.IH show ?thesis by simp
  next
    case (uncaught e service)
    then have "outcome_of (fst (gen (backend st) prompt (call_temperature st))) = Uncaught"
      by (simp add: outcome_uncaught)
    with assms show ?thesis by blast
  qed
qed

lemma narrate_slide_typed:
  assumes "text_is_str slide" and "call_progress cb i total' = None"
    and "\<forall>b p temp. outcome_of (fst (gen b p temp)) \<noteq> Uncaught"
  shows "\<exists>slide' st' evs. narrate_slide gen cb total' i slide st = Inr (slide', st', evs)"
proof -
  from assms(1) obtain t where t: "get_text slide = Inr t" using get_text_typed by blast
  from attempt_loop_returns [OF assms(3)] obtain r where "attempt_loop gen i t
         (build_context_aware_prompt st t i total' (i = 1 \<or> length (split t) < 15))
         [1, 2] slide st (progress_events cb i total') = Inr r"
    by blast
  with t assms(2) show ?thesis
    by (cases r; cases "length t < 5") (auto simp: narrate_slide_def Let_def)
qed

lemma narrate_slide_frame:
  assumes "narrate_slide gen cb total' i slide st = Inr (slide', st', evs)"
    and "k \<noteq> ''ai_narration''"
  shows "slide' k = slide k"
  using assms(1)
proof (cases rule: narrate_slide_cases)
  case (trivial t)
  then show ?thesis using assms(2) by (simp add: set_narration_other)
next
  case (generated t)
  then show ?thesis using assms(2) attempt_loop_frame by blast
qed

lemma narrate_slide_config:
  assumes "narrate_slide gen cb total' i slide st = Inr (slide', st', evs)"
  shows "SDK_VERSION st' = SDK_VERSION st \<and> self_temperature st' = self_temperature st \<and>
         self_style st' = self_style st"
  using assms
proof (cases rule: narrate_slide_cases)
  case (trivial t)
  then show ?thesis by simp
next
  case (generated t)
  then show ?thesis using attempt_loop_config by blast
qed

text \<open>The entries one slide adds to the history: none, or one for this slide.\<close>

lemma narrate_slide_history:
  assumes "narrate_slide gen cb total' i slide st = Inr (slide', st', evs)"
  shows "\<exists>es. conversation_history st' = conversation_history st @ es \<and>
           (\<forall>e\<in>set es. entry_slide_number e = i)"
  using assms
proof (cases rule: narrate_slide_cases)
  case (trivial t)
  then show ?thesis by simp
next
  case (generated t)
  from attempt_loop_history [OF generated(3)] show ?thesis by auto
qed

lemma narrate_slide_narration:
  assumes "narrate_slide gen cb total' i slide st = Inr (slide', st', evs)"
  shows "\<exists>v. slide' ''ai_narration'' = Some (PStr v)"
  using assms
proof (cases rule: narrate_slide_cases)
  case (trivial t)
  then show ?thesis by (simp add: set_narration_self)
next
  case (generated t)
  from attempt_loop_history [OF generated(3)] show ?thesis by auto
qed

section \<open>The loop over the slides\<close>

lemma narrate_loop_Cons_run:
  assumes "narrate_loop gen cb total' i (x # xs) st tr = Inr (out, st', tr')"
  obtains slide' st1 evs rest' where
    "narrate_slide gen cb total' i x st = Inr (slide', st1, evs)"
    "narrate_loop gen cb total' (Suc i) xs st1 (tr @ map (Pair i) evs) = Inr (rest', st', tr')"
    "out = slide' # rest'"
  using assms by (auto split: sum.splits)

lemma narrate_loop_inv:
  "narrate_loop gen cb total' i xs st tr = Inr (out, st', tr') \<Longrightarrow>
   length out = length xs \<and>
   SDK_VERSION st' = SDK_VERSION st \<and> self_temperature st' = self_temperature st \<and>
   self_style st' = self_style st \<and>
   (\<exists>new. tr' = tr @ new \<and> (\<forall>p\<in>set new. i \<le> fst p \<and> fst p < i + length xs)) \<and>
   (\<exists>es. conversation_history st' = conversation_history st @ es \<and>
      (\<forall>e\<in>set es. i \<le> entry_slide_number e \<and> entry_slide_number e < i + length xs))"
proof (induction xs arbitrary: i st tr out)
  case Nil
  then show ?case by simp
next
  case (Cons x xs)
  from Cons.prems obtain slide' st1 evs rest' where
    one: "narrate_slide gen cb total' i x st = Inr (slide', st1, evs)" and
    rest: "narrate_loop gen cb total' (Suc i) xs st1 (tr @ map (Pair i) evs) = Inr (rest', st', tr')" and
    out: "out = slide' # rest'"
    by (rule narrate_loop_Cons_run)
  note c1 = narrate_slide_config [OF one]
  from narrate_slide_history [OF one] obtain es1 where
    es1: "conversation_history st1 = conversation_history st @ es1"
      "\<forall>e\<in>set es1. entry_slide_number e = i"
    by blast
  from Cons.IH [OF rest] obtain new es2 where
    len: "length rest' = length xs" and
    c2: "SDK_VERSION st' = SDK_VERSION st1" "self_temperature st' = self_temperature st1"
      "self_style st' = self_style st1" and
    new: "tr' = (tr @ map (Pair i) evs) @ new"
      "\<forall>p\<in>set new. Suc i \<le> fst p \<and> fst p < Suc i + length xs" and
    es2: "conversation_history st' = conversation_history st1 @ es2"
      "\<forall>e\<in>set es2. Suc i \<le> entry_slide_number e \<and> entry_slide_number e < Suc i + length xs"
    by blast
  have t: "tr' = tr @ (map (Pair i) evs @ new)" using new(1) by simp
  have tp: "\<forall>p\<in>set (map (Pair i) evs @ new). i \<le> fst p \<and> fst p < i + length (x # xs)"
    using new(2) by auto
  have h: "conversation_history st' = conversation_history st @ (es1 @ es2)"
    using es1(1) es2(1) by simp
  have hp: "\<forall>e\<in>set (es1 @ es2). i \<le> entry_slide_number e \<and>
      entry_slide_number e < i + length (x # xs)"
    using es1(2) es2(2) by auto
  show ?case
    using out len c1 c2 t tp h hp by (intro conjI exI [of _ "map (Pair i) evs @ new"]
        exI [of _ "es1 @ es2"]) simp_all
qed

lemma narrate_loop_split:
  "narrate_loop gen cb total' i xs st tr = Inr (out, st', tr') \<Longrightarrow> j < length xs \<Longrightarrow>
   \<exists>st1 tr1 st2 evs.
     narrate_loop gen cb total' i (take j xs) st tr = Inr (take j out, st1, tr1) \<and>
     narrate_slide gen cb total' (i + j) (xs ! j) st1 = Inr (out ! j, st2, evs) \<and>
     narrate_loop gen cb total' (Suc (i + j)) (drop (Suc j) xs) st2 (tr1 @ map (Pair (i + j)) evs)
       = Inr (drop (Suc j) out, st', tr')"
proof (induction xs arbitrary: i st tr out j)
  case Nil
  then show ?case by simp
next
  case (Cons x xs)
  from Cons.prems(1) obtain slide' sta evs rest' where
    one: "narrate_slide gen cb total' i x st = Inr (slide', sta, evs)" and
    rest: "narrate_loop gen cb total' (Suc i) xs sta (tr @ map (Pair i) evs) = Inr (rest', st', tr')" and
    out: "out = slide' # rest'"
    by (rule narrate_loop_Cons_run)
  show ?case
  proof (cases j)
    case 0
    with one rest out show ?thesis by simp
  next
    case (Suc k)
    with Cons.prems(2) have k: "k < length xs" by simp
    from Cons.IH [OF rest k] obtain st1 tr1 st2 evs2 where
      a: "narrate_loop gen cb total' (Suc i) (take k xs) sta (tr @ map (Pair i) evs)
            = Inr (take k rest', st1, tr1)" and
      b: "narrate_slide gen cb total' (Suc i + k) (xs ! k) st1 = Inr (rest' ! k, st2, evs2)" and
      c: "narrate_loop gen cb total' (Suc (Suc i + k)) (drop (Suc k) xs) st2
            (tr1 @ map (Pair (Suc i + k)) evs2) = Inr (drop (Suc k) rest', st', tr')"
      by blast
    have a': "narrate_loop gen cb total' i (take j (x # xs)) st tr = Inr (take j out, st1, tr1)"
      using one a out Suc by simp
    have b': "narrate_slide gen cb total' (i + j) ((x # xs) ! j) st1 = Inr (out ! j, st2, evs2)"
      using b out Suc by simp
    have c': "narrate_loop gen cb total' (Suc (i + j)) (drop (Suc j) (x # xs)) st2
        (tr1 @ map (Pair (i + j)) evs2) = Inr (drop (Suc j) out, st', tr')"
      using c out Suc by simp
    from a' b' c' show ?thesis by blast
  qed
qed


lemma events_of_append: "events_of k (a @ b) = events_of k a @ events_of k b"
  by (simp add: events_of_def)

lemma events_of_Cons:
  "events_of k (p # a) = (if fst p = k then snd p # events_of k a else events_of k a)"
  by (simp add: events_of_def)

lemma events_of_none: "\<forall>p\<in>set a. fst p \<noteq> k \<Longrightarrow> events_of k a = []"
  by (induction a) (auto simp: events_of_def)

lemma events_of_same: "events_of k (map (Pair k) evs) = evs"
  by (induction evs) (auto simp: events_of_def)

lemma events_of_member: "(k, e) \<in> set tr \<longleftrightarrow> e \<in> set (events_of k tr)"
  by (force simp: events_of_def)

lemma narrate_slides_run:
  assumes "narrate_slides gen cb xs st = Inr (out, st', tr)"
  obtains tr' where
    "narrate_loop gen cb (length xs) 1 xs (st\<lparr>conversation_history := []\<rparr>)
       [(0, LogStyle (name (get_style_config (self_style st))))] = Inr (out, st', tr')"
    "tr = tr' @ [(0, LogComplete (length xs))]"
  using assms by (auto simp: narrate_slides_def Let_def split: sum.splits)

text \<open>
  The pass seen from one slide: the slide at position \<open>j\<close> is handled by the loop body at
  counter \<open>j + 1\<close>, from a state whose history holds the entries of the slides before it,
  and the trace keeps the effects of that slide under its counter.
\<close>

lemma narrate_slides_view:
  assumes run: "narrate_slides gen cb xs st = Inr (out, st', tr)" and j: "j < length xs"
  shows "\<exists>st1 st2.
     narrate_slide gen cb (length xs) (Suc j) (xs ! j) st1 = Inr (out ! j, st2, events_of (Suc j) tr) \<and>
     SDK_VERSION st1 = SDK_VERSION st \<and> self_temperature st1 = self_temperature st \<and>
     self_style st1 = self_style st \<and>
     conversation_history st1 =
       filter (\<lambda>e. entry_slide_number e < Suc j) (conversation_history st') \<and>
     conversation_history st2 =
       filter (\<lambda>e. entry_slide_number e \<le> Suc j) (conversation_history st')"
proof -
  let ?st0 = "st\<lparr>conversation_history := []\<rparr>"
  let ?tr0 = "[(0, LogStyle (name (get_style_config (self_style st))))]"
  from run obtain tr' where
    loop: "narrate_loop gen cb (length xs) 1 xs ?st0 ?tr0 = Inr (out, st', tr')" and
    tr: "tr = tr' @ [(0, LogComplete (length xs))]"
    by (rule narrate_slides_run)
  from narrate_loop_split [OF loop j] obtain st1 tr1 st2 evs where
    a: "narrate_loop gen cb (length xs) 1 (take j xs) ?st0 ?tr0 = Inr (take j out, st1, tr1)" and
    b: "narrate_slide gen cb (length xs) (1 + j) (xs ! j) st1 = Inr (out ! j, st2, evs)" and
    c: "narrate_loop gen cb (length xs) (Suc (1 + j)) (drop (Suc j) xs) st2
          (tr1 @ map (Pair (1 + j)) evs) = Inr (drop (Suc j) out, st', tr')"
    by blast
  from narrate_loop_inv [OF a] j obtain newA esA where
    ca: "SDK_VERSION st1 = SDK_VERSION st" "self_temperature st1 = self_temperature st"
      "self_style st1 = self_style st" and
    ta: "tr1 = ?tr0 @ newA" "\<forall>p\<in>set newA. 1 \<le> fst p \<and> fst p < 1 + j" and
    ha: "conversation_history st1 = esA"
      "\<forall>e\<in>set esA. 1 \<le> entry_slide_number e \<and> entry_slide_number e < 1 + j"
    by auto
  from narrate_slide_history [OF b] obtain esB where
    hb: "conversation_history st2 = conversation_history st1 @ esB"
      "\<forall>e\<in>set esB. entry_slide_number e = 1 + j"
    by blast
  from narrate_loop_inv [OF c] obtain newC esC where
    tc: "tr' = (tr1 @ map (Pair (1 + j)) evs) @ newC"
      "\<forall>p\<in>set newC. Suc (1 + j) \<le> fst p" and
    hc: "conversation_history st' = conversation_history st2 @ esC"
      "\<forall>e\<in>set esC. Suc (1 + j) \<le> entry_slide_number e"
    by auto
  have e0: "events_of (Suc j) ?tr0 = []" by (simp add: events_of_def)
  have eA: "events_of (Suc j) newA = []" using ta(2) by (intro events_of_none) auto
  have eC: "events_of (Suc j) newC = []" using tc(2) by (intro events_of_none) auto
  have eL: "events_of (Suc j) [(0, LogComplete (length xs))] = []" by (simp add: events_of_def)
  have ev: "events_of (Suc j) tr = evs"
    using tr tc(1) ta(1) eA eC events_of_same [of "Suc j" evs]
    by (simp add: events_of_append events_of_Cons events_of_def [of _ "[]"])
  have full: "conversation_history st' = esA @ esB @ esC"
    using ha(1) hb(1) hc(1) by simp
  have fA: "filter (\<lambda>e. entry_slide_number e < Suc j) esA = esA"
    "filter (\<lambda>e. entry_slide_number e \<le> Suc j) esA = esA"
    using ha(2) by (simp_all add: filter_id_conv) force
  have fB: "filter (\<lambda>e. entry_slide_number e < Suc j) esB = []"
    "filter (\<lambda>e. entry_slide_number e \<le> Suc j) esB = esB"
    using hb(2) by (simp_all add: filter_id_conv filter_empty_conv)
  have fC: "filter (\<lambda>e. entry_slide_number e < Suc j) esC = []"
    "filter (\<lambda>e. entry_slide_number e \<le> Suc j) esC = []"
    using hc(2) by (auto simp: filter_empty_conv)
  have h1: "conversation_history st1 =
      filter (\<lambda>e. entry_slide_number e < Suc j) (conversation_history st')"
    using full fA fB fC ha(1) by simp
  have h2: "conversation_history st2 =
      filter (\<lambda>e. entry_slide_number e \<le> Suc j) (conversation_history st')"
    using full fA fB fC ha(1) hb(1) by simp
  from b ev have "narrate_slide gen cb (length xs) (Suc j) (xs ! j) st1
      = Inr (out ! j, st2, events_of (Suc j) tr)"
    by simp
  with ca h1 h2 show ?thesis by blast
qed

text \<open>The counters in a trace: \<open>0\<close> for the two log lines, \<open>1\<close> to the number of slides
  for the rest; a generation call always belongs to a slide.\<close>

lemma narrate_slides_counters:
  assumes run: "narrate_slides gen cb xs st = Inr (out, st', tr)"
  shows "length out = length xs"
    and "SDK_VERSION st' = SDK_VERSION st \<and> self_temperature st' = self_temperature st \<and>
         self_style st' = self_style st"
    and "(k, e) \<in> set tr \<Longrightarrow> is_generate e \<Longrightarrow> 1 \<le> k \<and> k \<le> length xs"
    and "h \<in> set (conversation_history st') \<Longrightarrow>
         1 \<le> entry_slide_number h \<and> entry_slide_number h \<le> length xs"
proof -
  let ?st0 = "st\<lparr>conversation_history := []\<rparr>"
  let ?tr0 = "[(0, LogStyle (name (get_style_config (self_style st))))]"
  from run obtain tr' where
    loop: "narrate_loop gen cb (length xs) 1 xs ?st0 ?tr0 = Inr (out, st', tr')" and
    tr: "tr = tr' @ [(0, LogComplete (length xs))]"
    by (rule narrate_slides_run)
  from narrate_loop_inv [OF loop] obtain new es where
    l: "length out = length xs" and
    c: "SDK_VERSION st' = SDK_VERSION st" "self_temperature st' = self_temperature st"
      "self_style st' = self_style st" and
    t: "tr' = ?tr0 @ new" "\<forall>p\<in>set new. 1 \<le> fst p \<and> fst p < 1 + length xs" and
    h: "conversation_history st' = es"
      "\<forall>e\<in>set es. 1 \<le> entry_slide_number e \<and> entry_slide_number e < 1 + length xs"
    by auto
  show "length out = length xs" by (rule l)
  show "SDK_VERSION st' = SDK_VERSION st \<and> self_temperature st' = self_temperature st \<and>
         self_style st' = self_style st" using c by simp
  show "1 \<le> k \<and> k \<le> length xs" if "(k, e) \<in> set tr" "is_generate e"
  proof -
    from that tr t(1) have "(k, e) \<in> set new" by auto
    with t(2) show ?thesis by force
  qed
  show "1 \<le> entry_slide_number h \<and> entry_slide_number h \<le> length xs"
    if "h \<in> set (conversation_history st')"
    using that h by force
qed

lemma narrate_slides_typed:
  assumes "list_all text_is_str xs"
    and "\<forall>i n. call_progress cb i n = None"
    and "\<forall>b p temp. outcome_of (fst (gen b p temp)) \<noteq> Uncaught"
  shows "\<exists>out st' tr. narrate_slides gen cb xs st = Inr (out, st', tr)"
proof -
  have "\<exists>out st' tr'. narrate_loop gen cb n i xs s t = Inr (out, st', tr')" for n i s t
    using assms(1)
  proof (induction xs arbitrary: i s t)
    case Nil
    then show ?case by simp
  next
    case (Cons x xs)
    from Cons.prems have x: "text_is_str x" and xs: "list_all text_is_str xs" by simp_all
    from assms(2) have c: "call_progress cb i n = None" by blast
    from narrate_slide_typed [OF x c assms(3)] obtain slide' s1 evs where
      one: "narrate_slide gen cb n i x s = Inr (slide', s1, evs)"
      by blast
    from Cons.IH [OF xs] obtain out st' tr' where
      "narrate_loop gen cb n (Suc i) xs s1 (t @ map (Pair i) evs) = Inr (out, st', tr')"
      by blast
    with one show ?case by simp
  qed
  then obtain out st' tr' where
    "narrate_loop gen cb (length xs) 1 xs (st\<lparr>conversation_history := []\<rparr>)
       [(0, LogStyle (name (get_style_config (self_style st))))] = Inr (out, st', tr')"
    by blast
  then show ?thesis by (simp add: narrate_slides_def Let_def)
qed

text \<open>The loop body on a slide, by what the service answers.\<close>

lemma narrate_slide_trivial:
  assumes "get_text slide = Inr t" "length t < 5"
  shows "narrate_slide gen cb total' i slide st = Inr (set_narration slide t, st, [])"
  using assms by (simp add: narrate_slide_def)

lemma narrate_slide_unfold:
  assumes "get_text slide = Inr t" "5 \<le> length t" "call_progress cb i total' = None"
  shows "narrate_slide gen cb total' i slide st =
     attempt_loop gen i t
       (build_context_aware_prompt st t i total' (i = 1 \<or> length (split t) < 15))
       [1, 2] slide st (progress_events cb i total')"
  using assms by (simp add: narrate_slide_def Let_def)

lemma narrate_slide_callback:
  assumes "narrate_slide gen cb total' i slide st = Inr r"
    and "get_text slide = Inr t" "5 \<le> length t"
  shows "call_progress cb i total' = None"
  using assms by (auto simp: narrate_slide_def split: option.splits)

lemma narrate_slide_first_success:
  assumes "get_text slide = Inr t" "5 \<le> length t"
    and "prompt = build_context_aware_prompt st t i total' (i = 1 \<or> length (split t) < 15)"
    and "gen (backend st) prompt (call_temperature st) = (Text (Some n), service)"
    and "strip n \<noteq> []"
    and "call_progress cb i total' = None"
  shows "narrate_slide gen cb total' i slide st =
     Inr (set_narration slide (strip n),
          st\<lparr>backend := service,
             conversation_history := conversation_history st @
               [\<lparr>entry_slide_number = i, entry_text = t, entry_narration = strip n\<rparr>]\<rparr>,
          (progress_events cb i total') @
          [Generate 1 prompt (call_temperature st) (Text (Some n)), LogSuccess i])"
  unfolding narrate_slide_unfold [OF assms(1,2,6)] assms(3) [symmetric]
  using attempt_loop_success [where gen = gen and st = st, OF assms(4,5)] by simp

lemma narrate_slide_first_auth:
  assumes "get_text slide = Inr t" "5 \<le> length t"
    and "prompt = build_context_aware_prompt st t i total' (i = 1 \<or> length (split t) < 15)"
    and "gen (backend st) prompt (call_temperature st) = (Raise msg, service)"
    and "outcome_of (Raise msg) = AuthorizationError"
    and "call_progress cb i total' = None"
  shows "narrate_slide gen cb total' i slide st =
     Inr (set_narration slide t, st\<lparr>backend := service\<rparr>,
          (progress_events cb i total') @
          [Generate 1 prompt (call_temperature st) (Raise msg), LogApiKeyError msg])"
  unfolding narrate_slide_unfold [OF assms(1,2,6)] assms(3) [symmetric]
  using attempt_loop_auth [where gen = gen and st = st, OF assms(4,5)] by simp

lemma narrate_slide_two_retries:
  assumes "get_text slide = Inr t" "5 \<le> length t"
    and "prompt = build_context_aware_prompt st t i total' (i = 1 \<or> length (split t) < 15)"
    and "gen (backend st) prompt (call_temperature st) = (r1, s1)"
    and "outcome_of r1 \<noteq> Success" "outcome_of r1 \<noteq> AuthorizationError"
    and "gen s1 prompt (call_temperature st) = (r2, s2)"
    and "outcome_of r2 \<noteq> Success" "outcome_of r2 \<noteq> AuthorizationError"
    and "outcome_of r1 \<noteq> Uncaught" "outcome_of r2 \<noteq> Uncaught"
    and "call_progress cb i total' = None"
  shows "narrate_slide gen cb total' i slide st =
     Inr (set_narration slide t, st\<lparr>backend := s2\<rparr>,
          (progress_events cb i total') @
          Generate 1 prompt (call_temperature st) r1 # retry_log 1 r1 @ [Sleep 0.8] @
          Generate 2 prompt (call_temperature st) r2 # retry_log 2 r2 @ [Sleep 0.8])"
proof -
  have g2: "gen (backend (st\<lparr>backend := s1\<rparr>)) prompt (call_temperature (st\<lparr>backend := s1\<rparr>))
      = (r2, s2)"
    using assms(7) by simp
  show ?thesis
    unfolding narrate_slide_unfold [OF assms(1,2,12)] assms(3) [symmetric]
    by (simp add: attempt_loop_retry [where gen = gen and st = st, OF assms(4,5,6,10)]
        attempt_loop_retry [where gen = gen and st = "st\<lparr>backend := s1\<rparr>",
          OF g2 assms(8,9,11)])
qed

lemma narrate_slides_single:
  assumes "narrate_slide gen cb 1 1 x (st\<lparr>conversation_history := []\<rparr>) = Inr (x', st', evs)"
  shows "narrate_slides gen cb [x] st =
     Inr ([x'], st',
          (0, LogStyle (name (get_style_config (self_style st)))) # map (Pair 1) evs @
          [(0, LogComplete 1)])"
  using assms by (simp add: narrate_slides_def)

section \<open>Example runs\<close>

lemma strip_intro: "strip (u ''Intro to Topic'') = u ''Intro to Topic''"
  by (simp add: strip_def u_def isspace_def)

lemma strip_canned: "strip (u '' Welcome, everyone. '') = u ''Welcome, everyone.''"
  by (simp add: strip_def u_def isspace_def)

lemma get_text_intro: "get_text slide_intro = Inr (u ''Intro to Topic'')"
  by (simp add: get_text_def slide_intro_def strip_intro)

lemma style_engaging: "get_style_config (u ''engaging'') = engaging"
  by (simp add: get_style_config_def NARRATION_STYLES_def u_def)

lemma run_intro:
  "narrate_slides canned_service None [slide_intro] narrator_default =
     Inr ([set_narration slide_intro (u ''Welcome, everyone.'')],
          narrator_default\<lparr>conversation_history :=
            [\<lparr>entry_slide_number = 1, entry_text = u ''Intro to Topic'',
              entry_narration = u ''Welcome, everyone.''\<rparr>]\<rparr>,
          [(0, LogStyle (u ''Engaging Teacher'')),
           (1, Generate 1 (opener_template 1 (u ''Intro to Topic'') (prompt_style engaging))
                 (Some 0.7) (Text (Some (u '' Welcome, everyone. '')))),
           (1, LogSuccess 1),
           (0, LogComplete 1)])"
proof -
  let ?st0 = "narrator_default\<lparr>conversation_history := []\<rparr>"
  let ?p = "opener_template 1 (u ''Intro to Topic'') (prompt_style engaging)"
  have sty: "self_style narrator_default = u ''engaging''"
    by (simp add: narrator_default_def)
  have p: "?p = build_context_aware_prompt ?st0 (u ''Intro to Topic'') 1 1
      (1 = (1::nat) \<or> length (split (u ''Intro to Topic'')) < 15)"
    by (simp add: build_context_aware_prompt_def sty style_engaging)
  have t: "call_temperature ?st0 = Some 0.7"
    by (simp add: call_temperature_def narrator_default_def)
  have g: "canned_service (backend ?st0) ?p (call_temperature ?st0)
      = (Text (Some (u '' Welcome, everyone. '')), ())"
    by (simp add: canned_service_def)
  have ne: "strip (u '' Welcome, everyone. '') \<noteq> []"
    unfolding strip_canned by (simp add: u_def)
  have len: "5 \<le> length (u ''Intro to Topic'')" by (simp add: u_def)
  note one = narrate_slide_first_success [where gen = canned_service and cb = None
      and slide = slide_intro and st = ?st0 and i = 1 and total' = 1, OF get_text_intro len p g ne call_progress_None]
  show ?thesis
    unfolding narrate_slides_single [OF one] t strip_canned sty style_engaging
    by (simp add: narrator_default_def engaging_def)
qed

section \<open>The prompt builder selects its template by position\<close>

lemma opener_head: "take 9 (opener_template total_slides slide_text style_desc) = u ''You are t''"
  by (simp add: opener_template_def u_def)

lemma closer_head: "take 9 (closer_template context slide_text style_desc) = u ''You are c''"
  by (simp add: closer_template_def u_def)

lemma body_head:
  "take 9 (body_template slide_number total_slides context slide_text style_desc) = u ''You are n''"
  by (simp add: body_template_def u_def)

lemma templates_distinct:
  "opener_template t1 s1 d1 \<noteq> closer_template c2 s2 d2"
  "opener_template t1 s1 d1 \<noteq> body_template n3 t3 c3 s3 d3"
  "closer_template c2 s2 d2 \<noteq> body_template n3 t3 c3 s3 d3"
proof -
  have a: "u ''You are t'' \<noteq> u ''You are c''" "u ''You are t'' \<noteq> u ''You are n''"
    "u ''You are c'' \<noteq> u ''You are n''"
    by (simp_all add: u_def)
  show "opener_template t1 s1 d1 \<noteq> closer_template c2 s2 d2"
    using a(1) opener_head [of t1 s1 d1] closer_head [of c2 s2 d2] by auto
  show "opener_template t1 s1 d1 \<noteq> body_template n3 t3 c3 s3 d3"
    using a(2) opener_head [of t1 s1 d1] body_head [of n3 t3 c3 s3 d3] by auto
  show "closer_template c2 s2 d2 \<noteq> body_template n3 t3 c3 s3 d3"
    using a(3) closer_head [of c2 s2 d2] body_head [of n3 t3 c3 s3 d3] by auto
qed

text \<open>
  Claim C8. For a slide number of at least 1 (the counter of the pass starts at 1), the prompt
  builder returns the opener template when \<open>slide_number = 1\<close>, also when
  \<open>total_slides = 1\<close>; the closer template when \<open>slide_number = total_slides\<close> and
  \<open>total_slides > 1\<close>; and the body template otherwise. The choice reads neither the
  slide text nor \<open>is_title\<close>, and no two of the three templates ever give the same prompt.
\<close>

theorem build_prompt_by_position:
  assumes "1 \<le> slide_number"
  shows "build_context_aware_prompt self slide_text slide_number total_slides is_title =
     (if slide_number = 1 then
        opener_template total_slides slide_text (prompt_style (get_style_config (self_style self)))
      else if slide_number = total_slides \<and> 1 < total_slides then
        closer_template (closer_context (conversation_history self)) slide_text
          (prompt_style (get_style_config (self_style self)))
      else
        body_template slide_number total_slides (body_context (conversation_history self))
          slide_text (prompt_style (get_style_config (self_style self)))) \<and>
   opener_template t1 s1 d1 \<noteq> closer_template c2 s2 d2 \<and>
   opener_template t1 s1 d1 \<noteq> body_template n3 t3 c3 s3 d3 \<and>
   closer_template c2 s2 d2 \<noteq> body_template n3 t3 c3 s3 d3"
  using assms templates_distinct
  by (auto simp: build_context_aware_prompt_def Let_def)

theorem build_prompt_by_position_witness:
  "(1::nat) \<le> 3 \<and>
   build_context_aware_prompt narrator_default (u ''Thank you'') 3 3 False =
     closer_template (closer_context []) (u ''Thank you'')
       (prompt_style (get_style_config (u ''engaging'')))"
  using build_prompt_by_position
    [where slide_number = 3 and self = narrator_default and slide_text = "u ''Thank you''"
       and total_slides = 3 and is_title = False]
  by (simp add: narrator_default_def)

section \<open>When the pass completes, and what it then leaves\<close>

lemma narrate_slide_narration_source:
  assumes "narrate_slide gen cb total' i slide st = Inr (slide', st', evs)"
  shows "\<exists>t. get_text slide = Inr t \<and>
     (slide' ''ai_narration'' = Some (PStr t) \<or>
      (\<exists>a p temp n. Generate a p temp (Text (Some n)) \<in> set evs \<and> strip n \<noteq> [] \<and>
         slide' ''ai_narration'' = Some (PStr (strip n))))"
  using assms
proof (cases rule: narrate_slide_cases)
  case (trivial t)
  then show ?thesis by (simp add: set_narration_self)
next
  case (generated t)
  from attempt_loop_history [OF generated(3)] obtain new where
    e: "evs = progress_events cb i total' @ new" and
    alt: "(conversation_history st' = conversation_history st \<and> no_success new \<and>
          ([1, 2::nat] \<noteq> [] \<and> last [1, 2::nat] = 2 \<longrightarrow>
             slide' ''ai_narration'' = Some (PStr t)))
        \<or> (\<exists>a n. strip n \<noteq> [] \<and>
            conversation_history st' = conversation_history st @
              [\<lparr>entry_slide_number = i, entry_text = t, entry_narration = strip n\<rparr>] \<and>
            Generate a (build_context_aware_prompt st t i total' (i = 1 \<or> length (split t) < 15))
              (call_temperature st) (Text (Some n)) \<in> set new \<and>
            slide' ''ai_narration'' = Some (PStr (strip n)))"
    by blast
  from alt show ?thesis
  proof
    assume "conversation_history st' = conversation_history st \<and> no_success new \<and>
          ([1, 2::nat] \<noteq> [] \<and> last [1, 2::nat] = 2 \<longrightarrow>
             slide' ''ai_narration'' = Some (PStr t))"
    then have "slide' ''ai_narration'' = Some (PStr t)" by simp
    with generated(1) show ?thesis by blast
  next
    assume "\<exists>a n. strip n \<noteq> [] \<and>
            conversation_history st' = conversation_history st @
              [\<lparr>entry_slide_number = i, entry_text = t, entry_narration = strip n\<rparr>] \<and>
            Generate a (build_context_aware_prompt st t i total' (i = 1 \<or> length (split t) < 15))
              (call_temperature st) (Text (Some n)) \<in> set new \<and>
            slide' ''ai_narration'' = Some (PStr (strip n))"
    then obtain a n where B: "strip n \<noteq> []"
      "Generate a (build_context_aware_prompt st t i total' (i = 1 \<or> length (split t) < 15))
              (call_temperature st) (Text (Some n)) \<in> set new"
      "slide' ''ai_narration'' = Some (PStr (strip n))"
      by blast
    from B(2) e have "Generate a (build_context_aware_prompt st t i total'
        (i = 1 \<or> length (split t) < 15)) (call_temperature st) (Text (Some n)) \<in> set evs"
      by simp
    with B(1,3) generated(1) show ?thesis by blast
  qed
qed

text \<open>
  Claim C1, amended. For every deck of slide dictionaries whose \<open>text\<close>, where present, is a
  string, if the progress callback, when one is supplied, returns normally for every
  message, and the service raises no exception other than those that derive from
  \<open>Exception\<close>, then \<open>narrate_slides\<close> returns normally, whatever the service answers or
  raises otherwise; it returns as many slides as it was given; and every slide then holds a
  string under \<open>ai_narration\<close>: the trimmed text of the slide (a slide of fewer than 5
  characters, or a fallback), or the trimmed answer of a generation call made for that slide
  that was not blank.
\<close>

theorem narrate_slides_completes:
  assumes "list_all text_is_str slides_data"
    and "\<forall>i n. call_progress progress_callback i n = None"
    and "\<forall>b p temp e b'. gen b p temp \<noteq> (RaiseBase e, b')"
  shows "\<exists>out st' tr.
     narrate_slides gen progress_callback slides_data st = Inr (out, st', tr) \<and>
     length out = length slides_data \<and>
     (\<forall>j<length slides_data. \<exists>t. get_text (slides_data ! j) = Inr t \<and>
        ((out ! j) ''ai_narration'' = Some (PStr t) \<or>
         (\<exists>a p temp n. (Suc j, Generate a p temp (Text (Some n))) \<in> set tr \<and> strip n \<noteq> [] \<and>
            (out ! j) ''ai_narration'' = Some (PStr (strip n)))))"
proof -
  have svc: "\<forall>b p temp. outcome_of (fst (gen b p temp)) \<noteq> Uncaught"
  proof (intro allI notI)
    fix b p temp
    assume "outcome_of (fst (gen b p temp)) = Uncaught"
    then obtain e where "fst (gen b p temp) = RaiseBase e" using outcome_uncaught by blast
    then have "gen b p temp = (RaiseBase e, snd (gen b p temp))" by (cases "gen b p temp") simp
    with assms(3) show False by blast
  qed
  from narrate_slides_typed [OF assms(1,2) svc] obtain out st' tr where
    run: "narrate_slides gen progress_callback slides_data st = Inr (out, st', tr)"
    by blast
  have "\<exists>t. get_text (slides_data ! j) = Inr t \<and>
        ((out ! j) ''ai_narration'' = Some (PStr t) \<or>
         (\<exists>a p temp n. (Suc j, Generate a p temp (Text (Some n))) \<in> set tr \<and> strip n \<noteq> [] \<and>
            (out ! j) ''ai_narration'' = Some (PStr (strip n))))"
    if "j < length slides_data" for j
  proof -
    from narrate_slides_view [OF run that] obtain st1 st2 where
      "narrate_slide gen progress_callback (length slides_data) (Suc j) (slides_data ! j) st1
         = Inr (out ! j, st2, events_of (Suc j) tr)"
      by blast
    from narrate_slide_narration_source [OF this] show ?thesis
      by (simp add: events_of_member)
  qed
  with run narrate_slides_counters(1) [OF run] show ?thesis by blast
qed

theorem narrate_slides_completes_witness:
  "list_all text_is_str [slide_intro, Map.empty] \<and>
   (\<forall>i n. call_progress (Some quiet_callback) i n = None) \<and>
   (\<forall>b p temp e b'. canned_service b p temp \<noteq> (RaiseBase e, b')) \<and>
   (\<exists>out st' tr.
     narrate_slides canned_service (Some quiet_callback) [slide_intro, Map.empty] narrator_default
       = Inr (out, st', tr) \<and>
     length out = length [slide_intro, Map.empty] \<and>
     (\<forall>j<length [slide_intro, Map.empty].
        \<exists>t. get_text ([slide_intro, Map.empty] ! j) = Inr t \<and>
        ((out ! j) ''ai_narration'' = Some (PStr t) \<or>
         (\<exists>a p temp n. (Suc j, Generate a p temp (Text (Some n))) \<in> set tr \<and> strip n \<noteq> [] \<and>
            (out ! j) ''ai_narration'' = Some (PStr (strip n))))))"
proof -
  have h: "list_all text_is_str [slide_intro, Map.empty]"
    by (simp add: text_is_str_def slide_intro_def)
  have c: "\<forall>i n. call_progress (Some quiet_callback) i n = None"
    by (simp add: call_progress_def quiet_callback_def)
  have g: "\<forall>b p temp e b'. canned_service b p temp \<noteq> (RaiseBase e, b')"
    by (simp add: canned_service_def)
  from h c g narrate_slides_completes [OF h c g, of narrator_default]
  show ?thesis by blast
qed

text \<open>
  The claim as stated has the pass complete for every input deck. A deck whose slide has
  \<open>None\<close> for its text ends the pass with the \<open>AttributeError\<close> of \<open>None.strip()\<close>; a
  callback that raises ends it with that exception, because the call is outside the
  \<open>try\<close>; and an exception of the service that does not derive from \<open>Exception\<close> ends
  it too, because the handler is \<open>except Exception\<close>.
\<close>

theorem narrate_slides_raises_counterexample:
  "narrate_slides canned_service None [slide_none] narrator_default = Inl AttributeError \<and>
   narrate_slides canned_service (Some failing_callback) [slide_intro] narrator_default =
     Inl (CallbackRaised (u ''RuntimeError'')) \<and>
   narrate_slides interrupted_service None [slide_intro] narrator_default =
     Inl (BaseExceptionRaised (u ''KeyboardInterrupt''))"
proof -
  have len: "\<not> length (u ''Intro to Topic'') < 5" by (simp add: u_def)
  have 1: "narrate_slides canned_service None [slide_none] narrator_default = Inl AttributeError"
    by (simp add: narrate_slides_def narrate_slide_def get_text_def slide_none_def)
  have 2: "narrate_slides canned_service (Some failing_callback) [slide_intro] narrator_default =
     Inl (CallbackRaised (u ''RuntimeError''))"
    by (simp add: narrate_slides_def narrate_slide_def get_text_intro len call_progress_def
        failing_callback_def)
  have "attempt_loop interrupted_service i t p (a # rest) slide s evs =
      Inl (BaseExceptionRaised (u ''KeyboardInterrupt''))" for i t p a rest slide evs
      and s :: "unit state"
    by (rule attempt_loop_uncaught [where gen = interrupted_service and service = "()"])
       (simp add: interrupted_service_def)
  then have 3: "narrate_slides interrupted_service None [slide_intro] narrator_default =
     Inl (BaseExceptionRaised (u ''KeyboardInterrupt''))"
    by (simp add: narrate_slides_def narrate_slide_def get_text_intro len)
  from 1 2 3 show ?thesis by blast
qed

section \<open>The pass writes the narration only\<close>

text \<open>
  Claim C10. \<open>narrate_slides\<close> returns the slides it was given, as many and in the same
  order, and in every slide dictionary each key other than \<open>ai_narration\<close> (so
  \<open>slide_number\<close>, \<open>text\<close> and any other field) holds what it held before the pass.
\<close>

theorem narrate_slides_frame:
  assumes "narrate_slides gen progress_callback slides_data st = Inr (out, st', tr)"
  shows "length out = length slides_data \<and>
     (\<forall>j<length slides_data. \<forall>k. k \<noteq> ''ai_narration'' \<longrightarrow> (out ! j) k = (slides_data ! j) k)"
proof -
  have "(out ! j) k = (slides_data ! j) k"
    if "j < length slides_data" "k \<noteq> ''ai_narration''" for j k
  proof -
    from narrate_slides_view [OF assms that(1)] obtain st1 st2 where
      "narrate_slide gen progress_callback (length slides_data) (Suc j) (slides_data ! j) st1
         = Inr (out ! j, st2, events_of (Suc j) tr)"
      by blast
    then show ?thesis using that(2) by (rule narrate_slide_frame)
  qed
  with narrate_slides_counters(1) [OF assms] show ?thesis by blast
qed

theorem narrate_slides_frame_witness:
  "narrate_slides canned_service None [slide_intro] narrator_default =
     Inr ([set_narration slide_intro (u ''Welcome, everyone.'')],
          narrator_default\<lparr>conversation_history :=
            [\<lparr>entry_slide_number = 1, entry_text = u ''Intro to Topic'',
              entry_narration = u ''Welcome, everyone.''\<rparr>]\<rparr>,
          [(0, LogStyle (u ''Engaging Teacher'')),
           (1, Generate 1 (opener_template 1 (u ''Intro to Topic'') (prompt_style engaging))
                 (Some 0.7) (Text (Some (u '' Welcome, everyone. '')))),
           (1, LogSuccess 1),
           (0, LogComplete 1)]) \<and>
   length [set_narration slide_intro (u ''Welcome, everyone.'')] = length [slide_intro] \<and>
   ([set_narration slide_intro (u ''Welcome, everyone.'')] ! 0) ''text'' = ([slide_intro] ! 0) ''text'' \<and>
   ([set_narration slide_intro (u ''Welcome, everyone.'')] ! 0) ''slide_number'' =
     ([slide_intro] ! 0) ''slide_number''"
  using narrate_slides_frame [OF run_intro] run_intro by simp

section \<open>Slides with fewer than five characters\<close>

lemma filter_le_less:
  assumes "filter (\<lambda>e. f e \<le> (n::nat)) xs = filter (\<lambda>e. f e < n) xs"
  shows "\<forall>e\<in>set xs. f e \<noteq> n"
proof
  fix e assume e: "e \<in> set xs"
  show "f e \<noteq> n"
  proof
    assume "f e = n"
    with e have "e \<in> set (filter (\<lambda>e. f e \<le> n) xs)" by simp
    with assms have "e \<in> set (filter (\<lambda>e. f e < n) xs)" by simp
    with \<open>f e = n\<close> show False by simp
  qed
qed

text \<open>
  Claim C5, amended. For every slide whose trimmed text \<open>t\<close> has fewer than 5 characters,
  after the pass its narration is the trimmed text \<open>t\<close> (the value of
  \<open>slide.get("text", "").strip()\<close>, which is the \<open>text\<close> field itself only when that
  has no white space at its ends), the pass has no effect that belongs to this slide, so no
  generation call is made for it, and the history holds no entry for it.
\<close>

theorem trivial_slide_passthrough:
  assumes "narrate_slides gen progress_callback slides_data st = Inr (out, st', tr)"
    and "j < length slides_data"
    and "get_text (slides_data ! j) = Inr t"
    and "length t < 5"
  shows "(out ! j) ''ai_narration'' = Some (PStr t) \<and>
     events_of (Suc j) tr = [] \<and>
     generate_calls (events_of (Suc j) tr) = [] \<and>
     (\<forall>e\<in>set (conversation_history st'). entry_slide_number e \<noteq> Suc j)"
proof -
  from narrate_slides_view [OF assms(1,2)] obtain st1 st2 where
    one: "narrate_slide gen progress_callback (length slides_data) (Suc j) (slides_data ! j) st1
         = Inr (out ! j, st2, events_of (Suc j) tr)" and
    h1: "conversation_history st1 =
       filter (\<lambda>e. entry_slide_number e < Suc j) (conversation_history st')" and
    h2: "conversation_history st2 =
       filter (\<lambda>e. entry_slide_number e \<le> Suc j) (conversation_history st')"
    by blast
  from one narrate_slide_trivial [OF assms(3,4), of gen progress_callback "length slides_data" "Suc j" st1]
  have r: "out ! j = set_narration (slides_data ! j) t" "st2 = st1" "events_of (Suc j) tr = []"
    by simp_all
  from r(2) h1 h2 have "filter (\<lambda>e. entry_slide_number e \<le> Suc j) (conversation_history st')
      = filter (\<lambda>e. entry_slide_number e < Suc j) (conversation_history st')"
    by simp
  then have "\<forall>e\<in>set (conversation_history st'). entry_slide_number e \<noteq> Suc j"
    by (rule filter_le_less)
  with r show ?thesis by (simp add: set_narration_self generate_calls_def)
qed

lemma strip_padded: "strip (u '' a '') = u ''a''"
  by (simp add: strip_def u_def isspace_def)

lemma get_text_padded: "get_text slide_padded = Inr (u ''a'')"
  by (simp add: get_text_def slide_padded_def strip_padded)

lemma run_padded:
  "narrate_slides canned_service None [slide_padded] narrator_default =
     Inr ([set_narration slide_padded (u ''a'')],
          narrator_default\<lparr>conversation_history := []\<rparr>,
          [(0, LogStyle (u ''Engaging Teacher'')), (0, LogComplete 1)])"
proof -
  have len: "length (u ''a'') < 5" by (simp add: u_def)
  have sty: "self_style narrator_default = u ''engaging''"
    by (simp add: narrator_default_def)
  note one = narrate_slide_trivial [where gen = canned_service and cb = None
      and st = "narrator_default\<lparr>conversation_history := []\<rparr>" and i = 1 and total' = 1,
      OF get_text_padded len]
  show ?thesis
    unfolding narrate_slides_single [OF one] sty style_engaging
    by (simp add: engaging_def)
qed

text \<open>
  The claim as stated asks for the narration to equal the \<open>text\<close> field character for
  character. For the text \<open>" a "\<close> the narration is \<open>"a"\<close>.
\<close>

theorem trivial_slide_not_text_counterexample:
  "narrate_slides canned_service None [slide_padded] narrator_default =
     Inr ([set_narration slide_padded (u ''a'')],
          narrator_default\<lparr>conversation_history := []\<rparr>,
          [(0, LogStyle (u ''Engaging Teacher'')), (0, LogComplete 1)]) \<and>
   get_text slide_padded = Inr (u ''a'') \<and> length (u ''a'') < 5 \<and>
   ([set_narration slide_padded (u ''a'')] ! 0) ''ai_narration'' = Some (PStr (u ''a'')) \<and>
   ([set_narration slide_padded (u ''a'')] ! 0) ''text'' = Some (PStr (u '' a '')) \<and>
   ([set_narration slide_padded (u ''a'')] ! 0) ''ai_narration'' \<noteq>
     ([set_narration slide_padded (u ''a'')] ! 0) ''text''"
  using run_padded get_text_padded
  by (simp add: set_narration_def slide_padded_def u_def)

theorem trivial_slide_passthrough_witness:
  "narrate_slides canned_service None [slide_padded] narrator_default =
     Inr ([set_narration slide_padded (u ''a'')],
          narrator_default\<lparr>conversation_history := []\<rparr>,
          [(0, LogStyle (u ''Engaging Teacher'')), (0, LogComplete 1)]) \<and>
   (0::nat) < length [slide_padded] \<and>
   get_text ([slide_padded] ! 0) = Inr (u ''a'') \<and>
   length (u ''a'') < 5 \<and>
   ([set_narration slide_padded (u ''a'')] ! 0) ''ai_narration'' = Some (PStr (u ''a'')) \<and>
   events_of (Suc 0) [(0, LogStyle (u ''Engaging Teacher'')), (0, LogComplete 1)] = []"
proof -
  have g: "get_text ([slide_padded] ! 0) = Inr (u ''a'')" using get_text_padded by simp
  have l: "length (u ''a'') < 5" by (simp add: u_def)
  from trivial_slide_passthrough [OF run_padded _ g l] run_padded g l
  show ?thesis by simp
qed

section \<open>A service that always answers with nothing\<close>

lemma outcome_blank:
  "\<not> nonblank r \<Longrightarrow> outcome_of (Text r) = EmptyResponse"
  by (simp add: outcome_of_def)

lemma retry_log_text: "retry_log a (Text r) = [LogEmpty a]"
  by (simp add: retry_log_def)

lemma generate_calls_progress:
  "generate_calls ((progress_events cb i n) @ evs) = generate_calls evs"
  by (simp add: generate_calls_def)

text \<open>
  Claim C2, amended. For every slide whose trimmed text \<open>t\<close> has at least 5 characters, if
  every call of the service returns a response whose text is missing, empty or white space,
  then exactly 2 generation calls are made for that slide and its narration is the trimmed
  text \<open>t\<close>.
\<close>

theorem blank_service_two_calls:
  assumes "narrate_slides gen progress_callback slides_data st = Inr (out, st', tr)"
    and "j < length slides_data"
    and "get_text (slides_data ! j) = Inr t"
    and "5 \<le> length t"
    and "\<forall>b prompt temp. \<exists>r b'. gen b prompt temp = (Text r, b') \<and> \<not> nonblank r"
  shows "length (generate_calls (events_of (Suc j) tr)) = 2 \<and>
     (out ! j) ''ai_narration'' = Some (PStr t)"
proof -
  from narrate_slides_view [OF assms(1,2)] obtain st1 st2 where
    one: "narrate_slide gen progress_callback (length slides_data) (Suc j) (slides_data ! j) st1
         = Inr (out ! j, st2, events_of (Suc j) tr)"
    by blast
  define prompt where "prompt = build_context_aware_prompt st1 t (Suc j) (length slides_data)
     (Suc j = 1 \<or> length (split t) < 15)"
  from assms(5) obtain r1 s1 where
    g1: "gen (backend st1) prompt (call_temperature st1) = (Text r1, s1)" and b1: "\<not> nonblank r1"
    by blast
  from assms(5) obtain r2 s2 where
    g2: "gen s1 prompt (call_temperature st1) = (Text r2, s2)" and b2: "\<not> nonblank r2"
    by blast
  have o: "outcome_of (Text r1) \<noteq> Success" "outcome_of (Text r1) \<noteq> AuthorizationError"
    "outcome_of (Text r2) \<noteq> Success" "outcome_of (Text r2) \<noteq> AuthorizationError"
    "outcome_of (Text r1) \<noteq> Uncaught" "outcome_of (Text r2) \<noteq> Uncaught"
    using b1 b2 by (simp_all add: outcome_blank)
  note cp = narrate_slide_callback [OF one assms(3,4)]
  note two = narrate_slide_two_retries [where gen = gen and st = st1 and cb = progress_callback,
      OF assms(3,4) prompt_def g1 o(1,2) g2 o(3,4,5,6) cp]
  from one two have
    s: "out ! j = set_narration (slides_data ! j) t" and
    e: "events_of (Suc j) tr =
          (progress_events progress_callback (Suc j) (length slides_data)) @
          Generate 1 prompt (call_temperature st1) (Text r1) # retry_log 1 (Text r1) @ [Sleep 0.8] @
          Generate 2 prompt (call_temperature st1) (Text r2) # retry_log 2 (Text r2) @ [Sleep 0.8]"
    by simp_all
  have "generate_calls (events_of (Suc j) tr) =
      [Generate 1 prompt (call_temperature st1) (Text r1),
       Generate 2 prompt (call_temperature st1) (Text r2)]"
    unfolding e generate_calls_progress by (simp add: generate_calls_def retry_log_text)
  with s show ?thesis by (simp add: set_narration_self)
qed

lemma strip_hello: "strip (u ''hello '') = u ''hello''"
  by (simp add: strip_def u_def isspace_def)

lemma get_text_hello: "get_text slide_hello = Inr (u ''hello'')"
  by (simp add: get_text_def slide_hello_def strip_hello)

lemma blank_is_blank: "\<not> nonblank (Some (u ''  ''))"
  by (simp add: nonblank_def strip_def u_def isspace_def)

lemma prompt_hello:
  "build_context_aware_prompt (narrator_default\<lparr>conversation_history := []\<rparr>) (u ''hello'') 1 1
      (1 = (1::nat) \<or> length (split (u ''hello'')) < 15)
   = opener_template 1 (u ''hello'') (prompt_style engaging)"
  by (simp add: build_context_aware_prompt_def narrator_default_def style_engaging)

lemma temperature_default:
  "call_temperature (narrator_default\<lparr>conversation_history := []\<rparr>) = Some 0.7"
  by (simp add: call_temperature_def narrator_default_def)

lemma run_hello_blank:
  "narrate_slides blank_service None [slide_hello] narrator_default =
     Inr ([set_narration slide_hello (u ''hello'')],
          narrator_default\<lparr>conversation_history := []\<rparr>,
          [(0, LogStyle (u ''Engaging Teacher'')),
           (1, Generate 1 (opener_template 1 (u ''hello'') (prompt_style engaging))
                 (Some 0.7) (Text (Some (u ''  '')))),
           (1, LogEmpty 1),
           (1, Sleep 0.8),
           (1, Generate 2 (opener_template 1 (u ''hello'') (prompt_style engaging))
                 (Some 0.7) (Text (Some (u ''  '')))),
           (1, LogEmpty 2),
           (1, Sleep 0.8),
           (0, LogComplete 1)])"
proof -
  let ?st0 = "narrator_default\<lparr>conversation_history := []\<rparr>"
  let ?p = "opener_template 1 (u ''hello'') (prompt_style engaging)"
  have sty: "self_style narrator_default = u ''engaging''"
    by (simp add: narrator_default_def)
  have g: "blank_service (backend ?st0) ?p (call_temperature ?st0) = (Text (Some (u ''  '')), ())"
    "blank_service () ?p (call_temperature ?st0) = (Text (Some (u ''  '')), ())"
    by (simp_all add: blank_service_def)
  have o: "outcome_of (Text (Some (u ''  ''))) \<noteq> Success"
    "outcome_of (Text (Some (u ''  ''))) \<noteq> AuthorizationError"
    using blank_is_blank by (simp_all add: outcome_blank)
  have un: "outcome_of (Text (Some (u ''  ''))) \<noteq> Uncaught"
    using blank_is_blank by (simp add: outcome_blank)
  have len: "5 \<le> length (u ''hello'')" by (simp add: u_def)
  note one = narrate_slide_two_retries [where gen = blank_service and cb = None
      and slide = slide_hello and st = ?st0 and i = 1 and total' = 1,
      OF get_text_hello len prompt_hello [symmetric] g(1) o g(2) o un un call_progress_None]
  have b: "?st0\<lparr>backend := ()\<rparr> = ?st0" by simp
  show ?thesis
    unfolding narrate_slides_single [OF one] temperature_default sty style_engaging retry_log_text b
    by (simp add: engaging_def)
qed

text \<open>
  The claim as stated has the narration fall back to the original text. For the text
  \<open>"hello "\<close> and a service that answers with two spaces, two calls are made and the
  narration is \<open>"hello"\<close>, which is not the \<open>text\<close> field.
\<close>

theorem blank_service_not_text_counterexample:
  "narrate_slides blank_service None [slide_hello] narrator_default =
     Inr ([set_narration slide_hello (u ''hello'')],
          narrator_default\<lparr>conversation_history := []\<rparr>,
          [(0, LogStyle (u ''Engaging Teacher'')),
           (1, Generate 1 (opener_template 1 (u ''hello'') (prompt_style engaging))
                 (Some 0.7) (Text (Some (u ''  '')))),
           (1, LogEmpty 1),
           (1, Sleep 0.8),
           (1, Generate 2 (opener_template 1 (u ''hello'') (prompt_style engaging))
                 (Some 0.7) (Text (Some (u ''  '')))),
           (1, LogEmpty 2),
           (1, Sleep 0.8),
           (0, LogComplete 1)]) \<and>
   get_text slide_hello = Inr (u ''hello'') \<and> 5 \<le> length (u ''hello'') \<and>
   \<not> nonblank (Some (u ''  '')) \<and>
   ([set_narration slide_hello (u ''hello'')] ! 0) ''ai_narration'' = Some (PStr (u ''hello'')) \<and>
   ([set_narration slide_hello (u ''hello'')] ! 0) ''text'' = Some (PStr (u ''hello '')) \<and>
   ([set_narration slide_hello (u ''hello'')] ! 0) ''ai_narration'' \<noteq>
     ([set_narration slide_hello (u ''hello'')] ! 0) ''text''"
  using run_hello_blank get_text_hello blank_is_blank
  by (simp add: set_narration_def slide_hello_def u_def)

theorem blank_service_two_calls_witness:
  "narrate_slides blank_service None [slide_hello] narrator_default =
     Inr ([set_narration slide_hello (u ''hello'')],
          narrator_default\<lparr>conversation_history := []\<rparr>,
          [(0, LogStyle (u ''Engaging Teacher'')),
           (1, Generate 1 (opener_template 1 (u ''hello'') (prompt_style engaging))
                 (Some 0.7) (Text (Some (u ''  '')))),
           (1, LogEmpty 1),
           (1, Sleep 0.8),
           (1, Generate 2 (opener_template 1 (u ''hello'') (prompt_style engaging))
                 (Some 0.7) (Text (Some (u ''  '')))),
           (1, LogEmpty 2),
           (1, Sleep 0.8),
           (0, LogComplete 1)]) \<and>
   (0::nat) < length [slide_hello] \<and>
   get_text ([slide_hello] ! 0) = Inr (u ''hello'') \<and>
   5 \<le> length (u ''hello'') \<and>
   (\<forall>b prompt temp. \<exists>r b'. blank_service b prompt temp = (Text r, b') \<and> \<not> nonblank r) \<and>
   length (generate_calls (events_of (Suc 0)
          [(0, LogStyle (u ''Engaging Teacher'')),
           (1, Generate 1 (opener_template 1 (u ''hello'') (prompt_style engaging))
                 (Some 0.7) (Text (Some (u ''  '')))),
           (1, LogEmpty 1),
           (1, Sleep 0.8),
           (1, Generate 2 (opener_template 1 (u ''hello'') (prompt_style engaging))
                 (Some 0.7) (Text (Some (u ''  '')))),
           (1, LogEmpty 2),
           (1, Sleep 0.8),
           (0, LogComplete 1)])) = 2 \<and>
   ([set_narration slide_hello (u ''hello'')] ! 0) ''ai_narration'' = Some (PStr (u ''hello''))"
proof -
  have g: "get_text ([slide_hello] ! 0) = Inr (u ''hello'')" using get_text_hello by simp
  have l: "5 \<le> length (u ''hello'')" by (simp add: u_def)
  have b: "\<forall>b prompt temp. \<exists>r b'. blank_service b prompt temp = (Text r, b') \<and> \<not> nonblank r"
    using blank_is_blank by (simp add: blank_service_def)
  have j: "(0::nat) < length [slide_hello]" by simp
  from blank_service_two_calls [OF run_hello_blank j g l b] run_hello_blank j g l b
  show ?thesis by blast
qed

section \<open>An authorization error on the first attempt\<close>

lemma outcome_authorization:
  "outcome_of (Raise msg) = AuthorizationError \<longleftrightarrow>
     contains (u ''403'') msg \<or> contains (u ''PERMISSION_DENIED'') msg"
  by (simp add: outcome_of_def)

lemma generate_calls_append:
  "generate_calls (a @ b) = generate_calls a @ generate_calls b"
  by (simp add: generate_calls_def)

text \<open>
  Claim C3, amended. For every slide, if the first generation call made for it raises an
  error whose message contains \<open>403\<close> or \<open>PERMISSION_DENIED\<close>, then that call is the only
  generation call made for the slide, and its narration is the trimmed text of the slide.
\<close>

theorem authorization_error_one_call:
  assumes "narrate_slides gen progress_callback slides_data st = Inr (out, st', tr)"
    and "j < length slides_data"
    and "get_text (slides_data ! j) = Inr t"
    and "generate_calls (events_of (Suc j) tr) = Generate a prompt temp (Raise msg) # others"
    and "contains (u ''403'') msg \<or> contains (u ''PERMISSION_DENIED'') msg"
  shows "others = [] \<and> length (generate_calls (events_of (Suc j) tr)) = 1 \<and>
     (out ! j) ''ai_narration'' = Some (PStr t)"
proof -
  let ?evs = "events_of (Suc j) tr"
  let ?pre = "progress_events progress_callback (Suc j) (length slides_data)"
  from narrate_slides_view [OF assms(1,2)] obtain st1 st2 where
    one: "narrate_slide gen progress_callback (length slides_data) (Suc j) (slides_data ! j) st1
         = Inr (out ! j, st2, ?evs)"
    by blast
  have au: "outcome_of (Raise msg) = AuthorizationError"
    using assms(5) by (simp add: outcome_authorization)
  have long: "5 \<le> length t"
  proof (rule ccontr)
    assume "\<not> 5 \<le> length t"
    then have "length t < 5" by simp
    from one narrate_slide_trivial [OF assms(3) this, of gen progress_callback
        "length slides_data" "Suc j" st1]
    have "?evs = []" by simp
    with assms(4) show False by (simp add: generate_calls_def)
  qed
  define p where "p = build_context_aware_prompt st1 t (Suc j) (length slides_data)
     (Suc j = 1 \<or> length (split t) < 15)"
  note cp = narrate_slide_callback [OF one assms(3) long]
  from one narrate_slide_unfold [where gen = gen and st = st1, OF assms(3) long cp]
  have loop: "attempt_loop gen (Suc j) t p [1, 2] (slides_data ! j) st1 ?pre = Inr (out ! j, st2, ?evs)"
    by (simp add: p_def)
  have pre: "generate_calls ?pre = []" by (simp add: generate_calls_def)
  show ?thesis
  proof (cases rule: attempt_loop_step [of gen st1 p "Suc j" t 1 "[2]" "slides_data ! j" ?pre])
    case (success n service)
    with loop have "?evs = ?pre @ [Generate 1 p (call_temperature st1) (Text (Some n)),
        LogSuccess (Suc j)]"
      by simp
    then have "generate_calls ?evs = [Generate 1 p (call_temperature st1) (Text (Some n))]"
      using pre by (simp add: generate_calls_append) (simp add: generate_calls_def)
    with assms(4) show ?thesis by simp
  next
    case (auth m service)
    with loop have e: "?evs = ?pre @ [Generate 1 p (call_temperature st1) (Raise m),
        LogApiKeyError m]" and s: "out ! j = set_narration (slides_data ! j) t"
      by simp_all
    from e have "generate_calls ?evs = [Generate 1 p (call_temperature st1) (Raise m)]"
      using pre by (simp add: generate_calls_append) (simp add: generate_calls_def)
    with assms(4) s show ?thesis by (simp add: set_narration_self)
  next
    case (retry resp service)
    let ?g = "Generate 1 p (call_temperature st1) resp"
    from retry(4) loop
    have "attempt_loop gen (Suc j) t p [2]
            (if (1::nat) = 2 then set_narration (slides_data ! j) t else slides_data ! j)
            (st1\<lparr>backend := service\<rparr>)
            (?pre @ ?g # retry_log 1 resp @ [Sleep 0.8]) = Inr (out ! j, st2, ?evs)"
      by simp
    from attempt_loop_events [OF this] obtain new where
      "?evs = (?pre @ ?g # retry_log 1 resp @ [Sleep 0.8]) @ new"
      by blast
    then have "generate_calls ?evs = ?g # generate_calls (retry_log 1 resp @ [Sleep 0.8] @ new)"
      using pre by (simp add: generate_calls_append) (simp add: generate_calls_def)
    with assms(4) have "resp = Raise msg" by simp
    with retry(3) au show ?thesis by simp
  next
    case (uncaught e service)
    with loop show ?thesis by simp
  qed
qed

lemma forbidden_is_authorization:
  "contains (u ''403'') (u ''403 PERMISSION_DENIED'')"
  by (simp add: u_def)

lemma run_hello_forbidden:
  "narrate_slides forbidden_service None [slide_hello] narrator_default =
     Inr ([set_narration slide_hello (u ''hello'')],
          narrator_default\<lparr>conversation_history := []\<rparr>,
          [(0, LogStyle (u ''Engaging Teacher'')),
           (1, Generate 1 (opener_template 1 (u ''hello'') (prompt_style engaging))
                 (Some 0.7) (Raise (u ''403 PERMISSION_DENIED''))),
           (1, LogApiKeyError (u ''403 PERMISSION_DENIED'')),
           (0, LogComplete 1)])"
proof -
  let ?st0 = "narrator_default\<lparr>conversation_history := []\<rparr>"
  let ?p = "opener_template 1 (u ''hello'') (prompt_style engaging)"
  have sty: "self_style narrator_default = u ''engaging''"
    by (simp add: narrator_default_def)
  have g: "forbidden_service (backend ?st0) ?p (call_temperature ?st0)
      = (Raise (u ''403 PERMISSION_DENIED''), ())"
    by (simp add: forbidden_service_def)
  have o: "outcome_of (Raise (u ''403 PERMISSION_DENIED'')) = AuthorizationError"
    using forbidden_is_authorization by (simp add: outcome_authorization)
  have len: "5 \<le> length (u ''hello'')" by (simp add: u_def)
  note one = narrate_slide_first_auth [where gen = forbidden_service and cb = None
      and slide = slide_hello and st = ?st0 and i = 1 and total' = 1,
      OF get_text_hello len prompt_hello [symmetric] g o call_progress_None]
  have b: "?st0\<lparr>backend := ()\<rparr> = ?st0" by simp
  show ?thesis
    unfolding narrate_slides_single [OF one] temperature_default sty style_engaging b
    by (simp add: engaging_def)
qed

text \<open>
  The claim as stated has the narration fall back to the original text. For the text
  \<open>"hello "\<close> and a service that raises \<open>403 PERMISSION_DENIED\<close>, one call is made and
  the narration is \<open>"hello"\<close>, which is not the \<open>text\<close> field.
\<close>

theorem authorization_error_not_text_counterexample:
  "narrate_slides forbidden_service None [slide_hello] narrator_default =
     Inr ([set_narration slide_hello (u ''hello'')],
          narrator_default\<lparr>conversation_history := []\<rparr>,
          [(0, LogStyle (u ''Engaging Teacher'')),
           (1, Generate 1 (opener_template 1 (u ''hello'') (prompt_style engaging))
                 (Some 0.7) (Raise (u ''403 PERMISSION_DENIED''))),
           (1, LogApiKeyError (u ''403 PERMISSION_DENIED'')),
           (0, LogComplete 1)]) \<and>
   contains (u ''403'') (u ''403 PERMISSION_DENIED'') \<and>
   ([set_narration slide_hello (u ''hello'')] ! 0) ''ai_narration'' = Some (PStr (u ''hello'')) \<and>
   ([set_narration slide_hello (u ''hello'')] ! 0) ''text'' = Some (PStr (u ''hello '')) \<and>
   ([set_narration slide_hello (u ''hello'')] ! 0) ''ai_narration'' \<noteq>
     ([set_narration slide_hello (u ''hello'')] ! 0) ''text''"
  using run_hello_forbidden forbidden_is_authorization
  by (simp add: set_narration_def slide_hello_def u_def)

theorem authorization_error_one_call_witness:
  "narrate_slides forbidden_service None [slide_hello] narrator_default =
     Inr ([set_narration slide_hello (u ''hello'')],
          narrator_default\<lparr>conversation_history := []\<rparr>,
          [(0, LogStyle (u ''Engaging Teacher'')),
           (1, Generate 1 (opener_template 1 (u ''hello'') (prompt_style engaging))
                 (Some 0.7) (Raise (u ''403 PERMISSION_DENIED''))),
           (1, LogApiKeyError (u ''403 PERMISSION_DENIED'')),
           (0, LogComplete 1)]) \<and>
   (0::nat) < length [slide_hello] \<and>
   get_text ([slide_hello] ! 0) = Inr (u ''hello'') \<and>
   generate_calls (events_of (Suc 0)
          [(0, LogStyle (u ''Engaging Teacher'')),
           (1, Generate 1 (opener_template 1 (u ''hello'') (prompt_style engaging))
                 (Some 0.7) (Raise (u ''403 PERMISSION_DENIED''))),
           (1, LogApiKeyError (u ''403 PERMISSION_DENIED'')),
           (0, LogComplete 1)]) =
     Generate 1 (opener_template 1 (u ''hello'') (prompt_style engaging))
       (Some 0.7) (Raise (u ''403 PERMISSION_DENIED'')) # [] \<and>
   (contains (u ''403'') (u ''403 PERMISSION_DENIED'') \<or>
    contains (u ''PERMISSION_DENIED'') (u ''403 PERMISSION_DENIED'')) \<and>
   ([set_narration slide_hello (u ''hello'')] ! 0) ''ai_narration'' = Some (PStr (u ''hello''))"
proof -
  have g: "get_text ([slide_hello] ! 0) = Inr (u ''hello'')" using get_text_hello by simp
  have j: "(0::nat) < length [slide_hello]" by simp
  have c: "generate_calls (events_of (Suc 0)
          [(0, LogStyle (u ''Engaging Teacher'')),
           (1, Generate 1 (opener_template 1 (u ''hello'') (prompt_style engaging))
                 (Some 0.7) (Raise (u ''403 PERMISSION_DENIED''))),
           (1, LogApiKeyError (u ''403 PERMISSION_DENIED'')),
           (0, LogComplete 1)]) =
     Generate 1 (opener_template 1 (u ''hello'') (prompt_style engaging))
       (Some 0.7) (Raise (u ''403 PERMISSION_DENIED'')) # []"
    by (simp add: generate_calls_def events_of_def)
  have a: "contains (u ''403'') (u ''403 PERMISSION_DENIED'') \<or>
    contains (u ''PERMISSION_DENIED'') (u ''403 PERMISSION_DENIED'')"
    using forbidden_is_authorization by simp
  from authorization_error_one_call [OF run_hello_forbidden j g c a] run_hello_forbidden j g c a
  show ?thesis by blast
qed

section \<open>The temperature of a generation call\<close>

text \<open>Every generation call of a pass: the slide it belongs to, its prompt and its
  temperature.\<close>

lemma build_prompt_reads:
  "self_style a = self_style b \<Longrightarrow> conversation_history a = conversation_history b \<Longrightarrow>
   build_context_aware_prompt a t k n is_title = build_context_aware_prompt b t k n is_title"
  by (simp add: build_context_aware_prompt_def Let_def)

lemma narrate_slides_call:
  assumes run: "narrate_slides gen cb xs st = Inr (out, st', tr)"
    and ev: "(k, Generate a p temp r) \<in> set tr"
  shows "1 \<le> k \<and> k \<le> length xs \<and>
    (\<exists>t. get_text (xs ! (k - 1)) = Inr t \<and> 5 \<le> length t \<and>
       p = build_context_aware_prompt
             (st\<lparr>conversation_history :=
                  filter (\<lambda>e. entry_slide_number e < k) (conversation_history st')\<rparr>)
             t k (length xs) (k = 1 \<or> length (split t) < 15)) \<and>
    temp = call_temperature st \<and> (a = 1 \<or> a = 2)"
proof -
  from narrate_slides_counters(3) [OF run ev] have k: "1 \<le> k" "k \<le> length xs" by simp_all
  then have j: "k - 1 < length xs" and sk: "Suc (k - 1) = k" by simp_all
  from narrate_slides_view [OF run j] sk obtain st1 st2 where
    one: "narrate_slide gen cb (length xs) k (xs ! (k - 1)) st1
         = Inr (out ! (k - 1), st2, events_of k tr)" and
    c: "SDK_VERSION st1 = SDK_VERSION st" "self_temperature st1 = self_temperature st"
      "self_style st1 = self_style st" and
    h: "conversation_history st1 =
         filter (\<lambda>e. entry_slide_number e < k) (conversation_history st')"
    by auto
  have ct: "call_temperature st1 = call_temperature st"
    using c by (simp add: call_temperature_def)
  from ev have mem: "Generate a p temp r \<in> set (events_of k tr)"
    by (simp add: events_of_member)
  from one show ?thesis
  proof (cases rule: narrate_slide_cases)
    case (trivial t)
    with mem show ?thesis by simp
  next
    case (generated t)
    let ?p = "build_context_aware_prompt st1 t k (length xs) (k = 1 \<or> length (split t) < 15)"
    let ?q = "build_context_aware_prompt
             (st\<lparr>conversation_history :=
                  filter (\<lambda>e. entry_slide_number e < k) (conversation_history st')\<rparr>)
             t k (length xs) (k = 1 \<or> length (split t) < 15)"
    have pq: "?p = ?q" using c(3) h by (intro build_prompt_reads) simp_all
    from attempt_loop_events [OF generated(3)] obtain new where
      e: "events_of k tr = (progress_events cb k (length xs)) @ new" and
      g: "\<forall>e\<in>set new. is_generate e \<longrightarrow>
           (\<exists>a r. e = Generate a ?p (call_temperature st1) r \<and> a \<in> set [1, 2])"
      by blast
    from mem e have "Generate a p temp r \<in> set new" by (auto split: if_splits)
    with g have "p = ?p \<and> temp = call_temperature st1 \<and> (a = 1 \<or> a = 2)" by fastforce
    with pq ct have r: "p = ?q" "temp = call_temperature st" "a = 1 \<or> a = 2" by simp_all
    from generated(1,2) r(1) have
      "\<exists>t. get_text (xs ! (k - 1)) = Inr t \<and> 5 \<le> length t \<and>
       p = build_context_aware_prompt
             (st\<lparr>conversation_history :=
                  filter (\<lambda>e. entry_slide_number e < k) (conversation_history st')\<rparr>)
             t k (length xs) (k = 1 \<or> length (split t) < 15)"
      by blast
    with k r(2,3) show ?thesis by blast
  qed
qed

text \<open>
  Claim C4, amended. Every generation call of a pass is made with the temperature the
  narrator was constructed with (\<open>self.temperature\<close>, 0.7 unless the caller gave another)
  when the new SDK is in use, and with no temperature at all when the old SDK is in use. The
  temperature of the selected style is not read.
\<close>

theorem generation_temperature:
  assumes "narrate_slides gen progress_callback slides_data st = Inr (out, st', tr)"
    and "(k, Generate a prompt temp r) \<in> set tr"
  shows "temp = (if SDK_VERSION st = NEW then Some (self_temperature st) else None)"
proof -
  from narrate_slides_call [OF assms] have "temp = call_temperature st" by blast
  then show ?thesis by (simp add: call_temperature_def)
qed

theorem generation_temperature_witness:
  "narrate_slides canned_service None [slide_intro] narrator_default =
     Inr ([set_narration slide_intro (u ''Welcome, everyone.'')],
          narrator_default\<lparr>conversation_history :=
            [\<lparr>entry_slide_number = 1, entry_text = u ''Intro to Topic'',
              entry_narration = u ''Welcome, everyone.''\<rparr>]\<rparr>,
          [(0, LogStyle (u ''Engaging Teacher'')),
           (1, Generate 1 (opener_template 1 (u ''Intro to Topic'') (prompt_style engaging))
                 (Some 0.7) (Text (Some (u '' Welcome, everyone. '')))),
           (1, LogSuccess 1),
           (0, LogComplete 1)]) \<and>
   (1, Generate 1 (opener_template 1 (u ''Intro to Topic'') (prompt_style engaging))
                 (Some 0.7) (Text (Some (u '' Welcome, everyone. ''))))
     \<in> set [(0, LogStyle (u ''Engaging Teacher'')),
           (1, Generate 1 (opener_template 1 (u ''Intro to Topic'') (prompt_style engaging))
                 (Some 0.7) (Text (Some (u '' Welcome, everyone. '')))),
           (1, LogSuccess 1),
           (0, LogComplete 1)] \<and>
   Some (0.7::real) =
     (if SDK_VERSION narrator_default = NEW then Some (self_temperature narrator_default) else None)"
proof -
  have m: "(1, Generate 1 (opener_template 1 (u ''Intro to Topic'') (prompt_style engaging))
                 (Some 0.7) (Text (Some (u '' Welcome, everyone. ''))))
     \<in> set [(0, LogStyle (u ''Engaging Teacher'')),
           (1, Generate 1 (opener_template 1 (u ''Intro to Topic'') (prompt_style engaging))
                 (Some 0.7) (Text (Some (u '' Welcome, everyone. '')))),
           (1, LogSuccess 1),
           (0, LogComplete 1)]"
    by simp
  from generation_temperature [OF run_intro m] run_intro m show ?thesis by blast
qed

lemma init_professional:
  "init (Some NEW) (Some (u ''key'')) None (Some (u ''professional'')) () = Inr narrator_professional"
  by (simp add: init_def get_gemini_api_key_def narrator_professional_def strip_def u_def isspace_def)

lemma style_professional: "get_style_config (u ''professional'') = professional"
  by (simp add: get_style_config_def NARRATION_STYLES_def u_def)

lemma run_intro_professional:
  "narrate_slides canned_service None [slide_intro] narrator_professional =
     Inr ([set_narration slide_intro (u ''Welcome, everyone.'')],
          narrator_professional\<lparr>conversation_history :=
            [\<lparr>entry_slide_number = 1, entry_text = u ''Intro to Topic'',
              entry_narration = u ''Welcome, everyone.''\<rparr>]\<rparr>,
          [(0, LogStyle (u ''Professional Lecturer'')),
           (1, Generate 1 (opener_template 1 (u ''Intro to Topic'') (prompt_style professional))
                 (Some 0.7) (Text (Some (u '' Welcome, everyone. '')))),
           (1, LogSuccess 1),
           (0, LogComplete 1)])"
proof -
  let ?st0 = "narrator_professional\<lparr>conversation_history := []\<rparr>"
  let ?p = "opener_template 1 (u ''Intro to Topic'') (prompt_style professional)"
  have sty: "self_style narrator_professional = u ''professional''"
    by (simp add: narrator_professional_def)
  have p: "?p = build_context_aware_prompt ?st0 (u ''Intro to Topic'') 1 1
      (1 = (1::nat) \<or> length (split (u ''Intro to Topic'')) < 15)"
    by (simp add: build_context_aware_prompt_def sty style_professional)
  have t: "call_temperature ?st0 = Some 0.7"
    by (simp add: call_temperature_def narrator_professional_def)
  have g: "canned_service (backend ?st0) ?p (call_temperature ?st0)
      = (Text (Some (u '' Welcome, everyone. '')), ())"
    by (simp add: canned_service_def)
  have ne: "strip (u '' Welcome, everyone. '') \<noteq> []"
    unfolding strip_canned by (simp add: u_def)
  have len: "5 \<le> length (u ''Intro to Topic'')" by (simp add: u_def)
  note one = narrate_slide_first_success [where gen = canned_service and cb = None
      and slide = slide_intro and st = ?st0 and i = 1 and total' = 1, OF get_text_intro len p g ne call_progress_None]
  show ?thesis
    unfolding narrate_slides_single [OF one] t strip_canned sty style_professional
    by (simp add: narrator_professional_def professional_def)
qed

text \<open>
  The claim as stated has the call made with the temperature of the selected style. A
  narrator constructed for the style \<open>professional\<close>, whose temperature is 0.5, with the
  default temperature argument calls the service with 0.7.
\<close>

theorem style_temperature_unused_counterexample:
  "init (Some NEW) (Some (u ''key'')) None (Some (u ''professional'')) () = Inr narrator_professional \<and>
   narrate_slides canned_service None [slide_intro] narrator_professional =
     Inr ([set_narration slide_intro (u ''Welcome, everyone.'')],
          narrator_professional\<lparr>conversation_history :=
            [\<lparr>entry_slide_number = 1, entry_text = u ''Intro to Topic'',
              entry_narration = u ''Welcome, everyone.''\<rparr>]\<rparr>,
          [(0, LogStyle (u ''Professional Lecturer'')),
           (1, Generate 1 (opener_template 1 (u ''Intro to Topic'') (prompt_style professional))
                 (Some 0.7) (Text (Some (u '' Welcome, everyone. '')))),
           (1, LogSuccess 1),
           (0, LogComplete 1)]) \<and>
   temperature (get_style_config (self_style narrator_professional)) = 0.5 \<and>
   Some (0.7::real) \<noteq> Some (temperature (get_style_config (self_style narrator_professional)))"
  using init_professional run_intro_professional
  by (simp add: narrator_professional_def style_professional professional_def)

section \<open>The pacing sleep\<close>

lemma map_hd_iterations: "map hd (iterations evs) = generate_calls evs"
  by (induction evs) (auto simp: generate_calls_def)

text \<open>
  Claim C9, amended. Cut the effects of a slide before each generation call: every
  generation call starts one iteration of the retry loop. An iteration whose outcome is an
  empty response, a rate-limit error or any other error that is not an authorization error
  ends with the pacing sleep of 0.8 seconds, before the next attempt or the next slide. An
  iteration whose outcome is success or an authorization error leaves the loop by
  \<open>break\<close> and has no pacing sleep. No iteration of a pass that returns has met an
  exception that the loop does not catch.
\<close>

theorem pacing_sleep_after_retry_only:
  assumes "narrate_slides gen progress_callback slides_data st = Inr (out, st', tr)"
    and "j < length slides_data"
  shows "map hd (iterations (events_of (Suc j) tr)) = generate_calls (events_of (Suc j) tr) \<and>
     (\<forall>it\<in>set (iterations (events_of (Suc j) tr)).
        \<exists>a p t r rest. it = Generate a p t r # rest \<and> outcome_of r \<noteq> Uncaught \<and>
          (if outcome_of r = Success \<or> outcome_of r = AuthorizationError
           then pacing_sleep \<notin> set rest
           else rest \<noteq> [] \<and> last rest = pacing_sleep))"
proof -
  let ?evs = "events_of (Suc j) tr"
  from narrate_slides_view [OF assms] obtain st1 st2 where
    one: "narrate_slide gen progress_callback (length slides_data) (Suc j) (slides_data ! j) st1
         = Inr (out ! j, st2, ?evs)"
    by blast
  have "\<forall>it\<in>set (iterations ?evs). paced it"
    using one
  proof (cases rule: narrate_slide_cases)
    case (trivial t)
    then show ?thesis by simp
  next
    case (generated t)
    let ?pre = "progress_events progress_callback (Suc j) (length slides_data)"
    from attempt_loop_events [OF generated(3)] obtain new where
      e: "?evs = ?pre @ new" and p: "\<forall>it\<in>set (iterations new). paced it"
      by blast
    have "iterations (?pre @ new) = iterations new"
      by (intro iterations_skip) simp
    with e p show ?thesis by simp
  qed
  then show ?thesis
    unfolding paced_def by (simp add: map_hd_iterations)
qed

text \<open>
  The claim as stated has a pacing sleep after every iteration, whatever its outcome. A
  deck of one slide whose first generation call succeeds runs one iteration, and the pass
  never sleeps.
\<close>

theorem no_pacing_sleep_after_success_counterexample:
  "narrate_slides canned_service None [slide_intro] narrator_default =
     Inr ([set_narration slide_intro (u ''Welcome, everyone.'')],
          narrator_default\<lparr>conversation_history :=
            [\<lparr>entry_slide_number = 1, entry_text = u ''Intro to Topic'',
              entry_narration = u ''Welcome, everyone.''\<rparr>]\<rparr>,
          [(0, LogStyle (u ''Engaging Teacher'')),
           (1, Generate 1 (opener_template 1 (u ''Intro to Topic'') (prompt_style engaging))
                 (Some 0.7) (Text (Some (u '' Welcome, everyone. '')))),
           (1, LogSuccess 1),
           (0, LogComplete 1)]) \<and>
   5 \<le> length (u ''Intro to Topic'') \<and>
   outcome_of (Text (Some (u '' Welcome, everyone. ''))) = Success \<and>
   Sleep 0.8 \<notin> snd ` set
          [(0, LogStyle (u ''Engaging Teacher'')),
           (1, Generate 1 (opener_template 1 (u ''Intro to Topic'') (prompt_style engaging))
                 (Some 0.7) (Text (Some (u '' Welcome, everyone. '')))),
           (1, LogSuccess 1),
           (0, LogComplete 1)]"
proof -
  have "strip (u '' Welcome, everyone. '') \<noteq> []"
    unfolding strip_canned by (simp add: u_def)
  then have "outcome_of (Text (Some (u '' Welcome, everyone. ''))) = Success"
    using outcome_success by blast
  moreover have "5 \<le> length (u ''Intro to Topic'')" by (simp add: u_def)
  ultimately show ?thesis using run_intro by simp
qed

theorem pacing_sleep_after_retry_only_witness:
  "narrate_slides blank_service None [slide_hello] narrator_default =
     Inr ([set_narration slide_hello (u ''hello'')],
          narrator_default\<lparr>conversation_history := []\<rparr>,
          [(0, LogStyle (u ''Engaging Teacher'')),
           (1, Generate 1 (opener_template 1 (u ''hello'') (prompt_style engaging))
                 (Some 0.7) (Text (Some (u ''  '')))),
           (1, LogEmpty 1),
           (1, Sleep 0.8),
           (1, Generate 2 (opener_template 1 (u ''hello'') (prompt_style engaging))
                 (Some 0.7) (Text (Some (u ''  '')))),
           (1, LogEmpty 2),
           (1, Sleep 0.8),
           (0, LogComplete 1)]) \<and>
   (0::nat) < length [slide_hello] \<and>
   iterations (events_of (Suc 0)
          [(0, LogStyle (u ''Engaging Teacher'')),
           (1, Generate 1 (opener_template 1 (u ''hello'') (prompt_style engaging))
                 (Some 0.7) (Text (Some (u ''  '')))),
           (1, LogEmpty 1),
           (1, Sleep 0.8),
           (1, Generate 2 (opener_template 1 (u ''hello'') (prompt_style engaging))
                 (Some 0.7) (Text (Some (u ''  '')))),
           (1, LogEmpty 2),
           (1, Sleep 0.8),
           (0, LogComplete 1)]) =
     [[Generate 1 (opener_template 1 (u ''hello'') (prompt_style engaging))
                 (Some 0.7) (Text (Some (u ''  ''))), LogEmpty 1, Sleep 0.8],
      [Generate 2 (opener_template 1 (u ''hello'') (prompt_style engaging))
                 (Some 0.7) (Text (Some (u ''  ''))), LogEmpty 2, Sleep 0.8]] \<and>
   (\<exists>a p t r rest.
      [Generate 1 (opener_template 1 (u ''hello'') (prompt_style engaging))
                 (Some 0.7) (Text (Some (u ''  ''))), LogEmpty 1, Sleep 0.8] = Generate a p t r # rest \<and>
      outcome_of r \<noteq> Uncaught \<and>
      (if outcome_of r = Success \<or> outcome_of r = AuthorizationError
       then pacing_sleep \<notin> set rest
       else rest \<noteq> [] \<and> last rest = pacing_sleep))"
proof -
  let ?tr = "[(0, LogStyle (u ''Engaging Teacher'')),
           (1, Generate 1 (opener_template 1 (u ''hello'') (prompt_style engaging))
                 (Some 0.7) (Text (Some (u ''  '')))),
           (1, LogEmpty 1),
           (1, Sleep 0.8),
           (1, Generate 2 (opener_template 1 (u ''hello'') (prompt_style engaging))
                 (Some 0.7) (Text (Some (u ''  '')))),
           (1, LogEmpty 2),
           (1, Sleep 0.8),
           (0, LogComplete 1)]"
  let ?it = "[Generate 1 (opener_template 1 (u ''hello'') (prompt_style engaging))
                 (Some 0.7) (Text (Some (u ''  ''))), LogEmpty 1, Sleep 0.8]"
  have j: "(0::nat) < length [slide_hello]" by simp
  have i: "iterations (events_of (Suc 0) ?tr) =
     [?it,
      [Generate 2 (opener_template 1 (u ''hello'') (prompt_style engaging))
                 (Some 0.7) (Text (Some (u ''  ''))), LogEmpty 2, Sleep 0.8]]"
    by (simp add: events_of_def)
  from pacing_sleep_after_retry_only [OF run_hello_blank j]
  have "\<forall>it\<in>set (iterations (events_of (Suc 0) ?tr)).
        \<exists>a p t r rest. it = Generate a p t r # rest \<and> outcome_of r \<noteq> Uncaught \<and>
          (if outcome_of r = Success \<or> outcome_of r = AuthorizationError
           then pacing_sleep \<notin> set rest
           else rest \<noteq> [] \<and> last rest = pacing_sleep)"
    by blast
  moreover have "?it \<in> set (iterations (events_of (Suc 0) ?tr))"
    unfolding i by simp
  ultimately have "\<exists>a p t r rest. ?it = Generate a p t r # rest \<and> outcome_of r \<noteq> Uncaught \<and>
          (if outcome_of r = Success \<or> outcome_of r = AuthorizationError
           then pacing_sleep \<notin> set rest
           else rest \<noteq> [] \<and> last rest = pacing_sleep)"
    by blast
  with run_hello_blank j i show ?thesis by blast
qed

section \<open>The history of a pass\<close>

lemma narrate_slide_history_one:
  assumes "narrate_slide gen cb total' i slide st = Inr (slide', st', evs)"
  shows "\<exists>es. conversation_history st' = conversation_history st @ es \<and> length es \<le> 1 \<and>
           (\<forall>e\<in>set es. entry_slide_number e = i)"
  using assms
proof (cases rule: narrate_slide_cases)
  case (trivial t)
  then show ?thesis by simp
next
  case (generated t)
  from attempt_loop_history [OF generated(3)]
  have "conversation_history st' = conversation_history st @ [] \<or>
    (\<exists>n. conversation_history st' = conversation_history st @
        [\<lparr>entry_slide_number = i, entry_text = t, entry_narration = strip n\<rparr>])"
    by auto
  then show ?thesis
  proof
    assume "conversation_history st' = conversation_history st @ []"
    then show ?thesis by (intro exI [of _ "[]"]) simp
  next
    assume "\<exists>n. conversation_history st' = conversation_history st @
        [\<lparr>entry_slide_number = i, entry_text = t, entry_narration = strip n\<rparr>]"
    then obtain n where "conversation_history st' = conversation_history st @
        [\<lparr>entry_slide_number = i, entry_text = t, entry_narration = strip n\<rparr>]"
      by blast
    then show ?thesis
      by (intro exI [of _ "[\<lparr>entry_slide_number = i, entry_text = t, entry_narration = strip n\<rparr>]"])
         simp
  qed
qed

lemma narrate_loop_sorted:
  "narrate_loop gen cb total' i xs st tr = Inr (out, st', tr') \<Longrightarrow>
   \<exists>es. conversation_history st' = conversation_history st @ es \<and>
      sorted_wrt (<) (map entry_slide_number es) \<and>
      (\<forall>e\<in>set es. i \<le> entry_slide_number e)"
proof (induction xs arbitrary: i st tr out)
  case Nil
  then show ?case by simp
next
  case (Cons x xs)
  from Cons.prems obtain slide' st1 evs rest' where
    one: "narrate_slide gen cb total' i x st = Inr (slide', st1, evs)" and
    rest: "narrate_loop gen cb total' (Suc i) xs st1 (tr @ map (Pair i) evs) = Inr (rest', st', tr')"
    by (rule narrate_loop_Cons_run)
  from narrate_slide_history_one [OF one] obtain es1 where
    es1: "conversation_history st1 = conversation_history st @ es1" "length es1 \<le> 1"
      "\<forall>e\<in>set es1. entry_slide_number e = i"
    by blast
  from Cons.IH [OF rest] obtain es2 where
    es2: "conversation_history st' = conversation_history st1 @ es2"
      "sorted_wrt (<) (map entry_slide_number es2)"
      "\<forall>e\<in>set es2. Suc i \<le> entry_slide_number e"
    by blast
  have s1: "sorted_wrt (<) (map entry_slide_number es1)"
    using es1(2) by (cases es1) simp_all
  have "sorted_wrt (<) (map entry_slide_number (es1 @ es2))"
    using s1 es2(2,3) es1(3) by (auto simp: sorted_wrt_append)
  moreover have "\<forall>e\<in>set (es1 @ es2). i \<le> entry_slide_number e"
    using es1(3) es2(3) by auto
  moreover have "conversation_history st' = conversation_history st @ (es1 @ es2)"
    using es1(1) es2(1) by simp
  ultimately show ?case by blast
qed

lemma sorted_last_greatest:
  assumes "sorted_wrt (<) (map f xs)" "x \<in> set xs"
  shows "(f x :: nat) \<le> f (last xs)"
  using assms
proof (induction xs)
  case Nil
  then show ?case by simp
next
  case (Cons y ys)
  show ?case
  proof (cases "ys = []")
    case True
    with Cons.prems show ?thesis by simp
  next
    case False
    then have l: "last ys \<in> set ys" by simp
    show ?thesis
    proof (cases "x = y")
      case True
      with Cons.prems(1) l False show ?thesis by (auto simp: less_imp_le)
    next
      case False
      with Cons.prems have "x \<in> set ys" by simp
      with Cons.IH Cons.prems(1) \<open>ys \<noteq> []\<close> show ?thesis by simp
    qed
  qed
qed

text \<open>
  The history after a pass: in the order of the slides, at most one entry for a slide, an
  entry exactly for the slides with a generation call that succeeded, and that entry keeps
  the trimmed text of the slide and the narration the slide received.
\<close>

lemma narrate_slides_history_sorted:
  assumes run: "narrate_slides gen cb xs st = Inr (out, st', tr)"
  shows "sorted_wrt (<) (map entry_slide_number (conversation_history st'))"
proof -
  from run obtain tr' where
    loop: "narrate_loop gen cb (length xs) 1 xs (st\<lparr>conversation_history := []\<rparr>)
       [(0, LogStyle (name (get_style_config (self_style st))))] = Inr (out, st', tr')"
    by (rule narrate_slides_run)
  from narrate_loop_sorted [OF loop] show ?thesis by auto
qed

lemma narrate_slides_entry:
  assumes run: "narrate_slides gen cb xs st = Inr (out, st', tr)"
    and h: "h \<in> set (conversation_history st')"
  shows "\<exists>a p temp n.
     (entry_slide_number h, Generate a p temp (Text (Some n))) \<in> set tr \<and>
     strip n \<noteq> [] \<and> entry_narration h = strip n \<and>
     (out ! (entry_slide_number h - 1)) ''ai_narration'' = Some (PStr (strip n)) \<and>
     get_text (xs ! (entry_slide_number h - 1)) = Inr (entry_text h)"
proof -
  let ?k = "entry_slide_number h"
  from narrate_slides_counters(4) [OF run h] have k: "1 \<le> ?k" "?k \<le> length xs" by simp_all
  then have j: "?k - 1 < length xs" and sk: "Suc (?k - 1) = ?k" by simp_all
  from narrate_slides_view [OF run j] sk obtain st1 st2 where
    one: "narrate_slide gen cb (length xs) ?k (xs ! (?k - 1)) st1
         = Inr (out ! (?k - 1), st2, events_of ?k tr)" and
    h1: "conversation_history st1 =
         filter (\<lambda>e. entry_slide_number e < ?k) (conversation_history st')" and
    h2: "conversation_history st2 =
         filter (\<lambda>e. entry_slide_number e \<le> ?k) (conversation_history st')"
    by auto
  have in2: "h \<in> set (conversation_history st2)" and out1: "h \<notin> set (conversation_history st1)"
    using h h1 h2 by simp_all
  from one show ?thesis
  proof (cases rule: narrate_slide_cases)
    case (trivial t)
    with in2 out1 show ?thesis by simp
  next
    case (generated t)
    let ?p = "build_context_aware_prompt st1 t ?k (length xs) (?k = 1 \<or> length (split t) < 15)"
    from attempt_loop_history [OF generated(3)] obtain new where
      e: "events_of ?k tr = (progress_events cb ?k (length xs)) @ new" and
      alt: "(conversation_history st2 = conversation_history st1 \<and> no_success new \<and>
          ([1, 2::nat] \<noteq> [] \<and> last [1, 2::nat] = 2 \<longrightarrow>
             (out ! (?k - 1)) ''ai_narration'' = Some (PStr t)))
        \<or> (\<exists>a n. strip n \<noteq> [] \<and>
            conversation_history st2 = conversation_history st1 @
              [\<lparr>entry_slide_number = ?k, entry_text = t, entry_narration = strip n\<rparr>] \<and>
            Generate a ?p (call_temperature st1) (Text (Some n)) \<in> set new \<and>
            (out ! (?k - 1)) ''ai_narration'' = Some (PStr (strip n)))"
      by blast
    from alt in2 out1 obtain a n where B: "strip n \<noteq> []"
      "conversation_history st2 = conversation_history st1 @
              [\<lparr>entry_slide_number = ?k, entry_text = t, entry_narration = strip n\<rparr>]"
      "Generate a ?p (call_temperature st1) (Text (Some n)) \<in> set new"
      "(out ! (?k - 1)) ''ai_narration'' = Some (PStr (strip n))"
      by auto
    from B(2) in2 out1 have
      hh: "h = \<lparr>entry_slide_number = ?k, entry_text = t, entry_narration = strip n\<rparr>"
      by simp
    from B(3) e have "Generate a ?p (call_temperature st1) (Text (Some n)) \<in> set (events_of ?k tr)"
      by simp
    then have m: "(?k, Generate a ?p (call_temperature st1) (Text (Some n))) \<in> set tr"
      by (simp add: events_of_member)
    have "entry_narration h = strip n" "entry_text h = t"
      using hh by (metis context_entry.select_convs(3), metis context_entry.select_convs(2))
    with m B(1,4) generated(1) show ?thesis by blast
  qed
qed

lemma narrate_slides_success_entry:
  assumes run: "narrate_slides gen cb xs st = Inr (out, st', tr)"
    and ev: "(k, Generate a p temp r) \<in> set tr" and ok: "outcome_of r = Success"
  shows "\<exists>h\<in>set (conversation_history st'). entry_slide_number h = k"
proof -
  from narrate_slides_counters(3) [OF run ev] have k: "1 \<le> k" "k \<le> length xs" by simp_all
  then have j: "k - 1 < length xs" and sk: "Suc (k - 1) = k" by simp_all
  from narrate_slides_view [OF run j] sk obtain st1 st2 where
    one: "narrate_slide gen cb (length xs) k (xs ! (k - 1)) st1
         = Inr (out ! (k - 1), st2, events_of k tr)" and
    h2: "conversation_history st2 =
         filter (\<lambda>e. entry_slide_number e \<le> k) (conversation_history st')"
    by auto
  from ev have mem: "Generate a p temp r \<in> set (events_of k tr)"
    by (simp add: events_of_member)
  from one show ?thesis
  proof (cases rule: narrate_slide_cases)
    case (trivial t)
    with mem show ?thesis by simp
  next
    case (generated t)
    from attempt_loop_history [OF generated(3)] obtain new where
      e: "events_of k tr = (progress_events cb k (length xs)) @ new" and
      alt: "(conversation_history st2 = conversation_history st1 \<and> no_success new \<and>
          ([1, 2::nat] \<noteq> [] \<and> last [1, 2::nat] = 2 \<longrightarrow>
             (out ! (k - 1)) ''ai_narration'' = Some (PStr t)))
        \<or> (\<exists>a n. strip n \<noteq> [] \<and>
            conversation_history st2 = conversation_history st1 @
              [\<lparr>entry_slide_number = k, entry_text = t, entry_narration = strip n\<rparr>] \<and>
            Generate a (build_context_aware_prompt st1 t k (length xs)
                 (k = 1 \<or> length (split t) < 15)) (call_temperature st1) (Text (Some n)) \<in> set new \<and>
            (out ! (k - 1)) ''ai_narration'' = Some (PStr (strip n)))"
      by blast
    from mem e have "Generate a p temp r \<in> set new" by (auto split: if_splits)
    with ok have "\<not> no_success new" unfolding no_success_def by blast
    with alt obtain n where
      "conversation_history st2 = conversation_history st1 @
              [\<lparr>entry_slide_number = k, entry_text = t, entry_narration = strip n\<rparr>]"
      by blast
    then have "\<lparr>entry_slide_number = k, entry_text = t, entry_narration = strip n\<rparr>
        \<in> set (conversation_history st2)"
      by simp
    with h2 have "\<lparr>entry_slide_number = k, entry_text = t, entry_narration = strip n\<rparr>
        \<in> set (conversation_history st')"
      by simp
    then show ?thesis by force
  qed
qed

section \<open>A deck of three slides\<close>

lemma narrate_slides_three:
  assumes "narrate_slide gen cb 3 1 x1 (st\<lparr>conversation_history := []\<rparr>) = Inr (y1, s1, e1)"
    and "narrate_slide gen cb 3 2 x2 s1 = Inr (y2, s2, e2)"
    and "narrate_slide gen cb 3 3 x3 s2 = Inr (y3, s3, e3)"
  shows "narrate_slides gen cb [x1, x2, x3] st =
     Inr ([y1, y2, y3], s3,
          (0, LogStyle (name (get_style_config (self_style st)))) #
          map (Pair 1) e1 @ map (Pair 2) e2 @ map (Pair 3) e3 @ [(0, LogComplete 3)])"
  using assms by (simp add: narrate_slides_def eval_nat_numeral)

lemma strip_growth:
  "strip (u ''Topic has grown 40% since 2020'') = u ''Topic has grown 40% since 2020''"
  by (simp add: strip_def u_def isspace_def)

lemma strip_thanks: "strip (u ''Thank you'') = u ''Thank you''"
  by (simp add: strip_def u_def isspace_def)

lemma get_text_growth: "get_text slide_growth = Inr (u ''Topic has grown 40% since 2020'')"
  by (simp add: get_text_def slide_growth_def strip_growth)

lemma get_text_thanks: "get_text slide_thanks = Inr (u ''Thank you'')"
  by (simp add: get_text_def slide_thanks_def strip_thanks)

lemma run_deck:
  "narrate_slides canned_service None [slide_intro, slide_growth, slide_thanks] narrator_default =
     Inr ([set_narration slide_intro (u ''Welcome, everyone.''),
           set_narration slide_growth (u ''Welcome, everyone.''),
           set_narration slide_thanks (u ''Welcome, everyone.'')],
          narrator_default\<lparr>conversation_history := [entry_intro, entry_growth, entry_thanks]\<rparr>,
          deck_trace)"
proof -
  let ?w = "u '' Welcome, everyone. ''"
  let ?st0 = "narrator_default\<lparr>conversation_history := []\<rparr>"
  let ?st1 = "narrator_default\<lparr>conversation_history := [entry_intro]\<rparr>"
  let ?st2 = "narrator_default\<lparr>conversation_history := [entry_intro, entry_growth]\<rparr>"
  let ?st3 = "narrator_default\<lparr>conversation_history := [entry_intro, entry_growth, entry_thanks]\<rparr>"
  let ?p1 = "opener_template 3 (u ''Intro to Topic'') (prompt_style engaging)"
  let ?p2 = "body_template 2 3 (body_context [entry_intro])
               (u ''Topic has grown 40% since 2020'') (prompt_style engaging)"
  let ?p3 = "closer_template (closer_context [entry_intro, entry_growth])
               (u ''Thank you'') (prompt_style engaging)"
  have sty: "self_style narrator_default = u ''engaging''"
    by (simp add: narrator_default_def)
  have ne: "strip ?w \<noteq> []"
    unfolding strip_canned by (simp add: u_def)
  have len: "5 \<le> length (u ''Intro to Topic'')"
    "5 \<le> length (u ''Topic has grown 40% since 2020'')" "5 \<le> length (u ''Thank you'')"
    by (simp_all add: u_def)
  have t: "call_temperature ?st0 = Some 0.7" "call_temperature ?st1 = Some 0.7"
    "call_temperature ?st2 = Some 0.7"
    by (simp_all add: call_temperature_def narrator_default_def)
  have p1: "?p1 = build_context_aware_prompt ?st0 (u ''Intro to Topic'') 1 3
      (1 = (1::nat) \<or> length (split (u ''Intro to Topic'')) < 15)"
    by (simp add: build_context_aware_prompt_def sty style_engaging)
  have p2: "?p2 = build_context_aware_prompt ?st1 (u ''Topic has grown 40% since 2020'') 2 3
      (2 = (1::nat) \<or> length (split (u ''Topic has grown 40% since 2020'')) < 15)"
    by (simp add: build_context_aware_prompt_def sty style_engaging)
  have p3: "?p3 = build_context_aware_prompt ?st2 (u ''Thank you'') 3 3
      (3 = (1::nat) \<or> length (split (u ''Thank you'')) < 15)"
    by (simp add: build_context_aware_prompt_def sty style_engaging)
  have g: "canned_service (backend ?st0) ?p1 (call_temperature ?st0) = (Text (Some ?w), ())"
    "canned_service (backend ?st1) ?p2 (call_temperature ?st1) = (Text (Some ?w), ())"
    "canned_service (backend ?st2) ?p3 (call_temperature ?st2) = (Text (Some ?w), ())"
    by (simp_all add: canned_service_def)
  have s: "?st0\<lparr>backend := (), conversation_history := conversation_history ?st0 @
        [\<lparr>entry_slide_number = 1, entry_text = u ''Intro to Topic'',
          entry_narration = strip ?w\<rparr>]\<rparr> = ?st1"
    "?st1\<lparr>backend := (), conversation_history := conversation_history ?st1 @
        [\<lparr>entry_slide_number = 2, entry_text = u ''Topic has grown 40% since 2020'',
          entry_narration = strip ?w\<rparr>]\<rparr> = ?st2"
    "?st2\<lparr>backend := (), conversation_history := conversation_history ?st2 @
        [\<lparr>entry_slide_number = 3, entry_text = u ''Thank you'',
          entry_narration = strip ?w\<rparr>]\<rparr> = ?st3"
    by (simp_all add: strip_canned entry_intro_def entry_growth_def entry_thanks_def)
  note one = narrate_slide_first_success [where gen = canned_service and cb = None
      and slide = slide_intro and st = ?st0 and i = 1 and total' = 3,
      OF get_text_intro len(1) p1 g(1) ne call_progress_None, unfolded s t]
  note two = narrate_slide_first_success [where gen = canned_service and cb = None
      and slide = slide_growth and st = ?st1 and i = 2 and total' = 3,
      OF get_text_growth len(2) p2 g(2) ne call_progress_None, unfolded s t]
  note three = narrate_slide_first_success [where gen = canned_service and cb = None
      and slide = slide_thanks and st = ?st2 and i = 3 and total' = 3,
      OF get_text_thanks len(3) p3 g(3) ne call_progress_None, unfolded s t]
  show ?thesis
    unfolding narrate_slides_three [OF one two three] strip_canned sty style_engaging deck_trace_def
    by (simp add: engaging_def)
qed

section \<open>The context of a body prompt\<close>

lemma build_prompt_body:
  "k \<noteq> 1 \<Longrightarrow> k \<noteq> n \<Longrightarrow>
   build_context_aware_prompt (st\<lparr>conversation_history := H\<rparr>) t k n is_title =
     body_template k n (body_context H) t (prompt_style (get_style_config (self_style st)))"
  by (simp add: build_context_aware_prompt_def Let_def)

lemma build_prompt_closer:
  "n \<noteq> 1 \<Longrightarrow>
   build_context_aware_prompt (st\<lparr>conversation_history := H\<rparr>) t n n is_title =
     closer_template (closer_context H) t (prompt_style (get_style_config (self_style st)))"
  by (simp add: build_context_aware_prompt_def Let_def)

lemma body_context_join:
  "body_context H = join (u ''\<newline>'') (map context_item (recent_context H))"
  by (simp add: body_context_def recent_context_def)

lemma recent_context_bound: "length (recent_context H) \<le> 2"
  by (simp add: recent_context_def)

lemma recent_context_suffix: "suffix (recent_context H) H"
  by (simp add: recent_context_def suffix_drop)

lemma prev_narration_bound: "length (prev_narration e) \<le> 150"
  by (simp add: prev_narration_def)

lemma prev_narration_suffix: "suffix (prev_narration e) (entry_narration e)"
  by (simp add: prev_narration_def suffix_drop)

lemma history_before_subset: "h \<in> set (history_before k st) \<Longrightarrow> h \<in> set (conversation_history st)"
  by (simp add: history_before_def)

text \<open>
  Claim C6. Take any generation call of a pass made for a slide whose counter \<open>k\<close> is
  neither 1 nor the number of slides. Its prompt is the body template, and the previous
  context in it is built from the history as it stands before slide \<open>k\<close>: the lines of
  at most 2 entries, which are the last entries of that history, each line holding the slide
  number of the entry and the last 150 characters of its narration at most (all of it when
  it is shorter). The history is in the order of the slides, and every entry in it belongs
  to a slide of at least 5 characters for which a generation call returned a text that is
  not blank, whose trimmed form is both the narration of the entry and the narration of the
  slide; so a trivial slide or a slide that fell back to its text has no entry.
\<close>

theorem body_prompt_context:
  assumes "narrate_slides gen progress_callback slides_data st = Inr (out, st', tr)"
    and "(k, Generate a prompt temp r) \<in> set tr"
    and "k \<noteq> 1" and "k \<noteq> length slides_data"
  shows "(\<exists>t. get_text (slides_data ! (k - 1)) = Inr t \<and>
        prompt = body_template k (length slides_data) (body_context (history_before k st')) t
                   (prompt_style (get_style_config (self_style st)))) \<and>
     body_context (history_before k st') =
       join (u ''\<newline>'') (map context_item (recent_context (history_before k st'))) \<and>
     length (recent_context (history_before k st')) \<le> 2 \<and>
     suffix (recent_context (history_before k st')) (history_before k st') \<and>
     (\<forall>e\<in>set (recent_context (history_before k st')).
        context_item e =
          u ''Slide '' @ str_nat (entry_slide_number e) @ u '' ended with: ...'' @ prev_narration e \<and>
        length (prev_narration e) \<le> 150 \<and>
        suffix (prev_narration e) (entry_narration e)) \<and>
     sorted_wrt (<) (map entry_slide_number (conversation_history st')) \<and>
     (\<forall>h\<in>set (conversation_history st').
        \<exists>a' p' temp' n.
          (entry_slide_number h, Generate a' p' temp' (Text (Some n))) \<in> set tr \<and>
          strip n \<noteq> [] \<and> entry_narration h = strip n \<and>
          (out ! (entry_slide_number h - 1)) ''ai_narration'' = Some (PStr (strip n)) \<and>
          get_text (slides_data ! (entry_slide_number h - 1)) = Inr (entry_text h) \<and>
          5 \<le> length (entry_text h))"
proof -
  let ?H = "history_before k st'"
  from narrate_slides_call [OF assms(1,2)] obtain t where
    t: "get_text (slides_data ! (k - 1)) = Inr t" and
    p: "prompt = build_context_aware_prompt
             (st\<lparr>conversation_history :=
                  filter (\<lambda>e. entry_slide_number e < k) (conversation_history st')\<rparr>)
             t k (length slides_data) (k = 1 \<or> length (split t) < 15)"
    by blast
  have 1: "\<exists>t. get_text (slides_data ! (k - 1)) = Inr t \<and>
        prompt = body_template k (length slides_data) (body_context ?H) t
                   (prompt_style (get_style_config (self_style st)))"
    using t p build_prompt_body [OF assms(3,4)] by (simp add: history_before_def)
  have 5: "\<forall>e\<in>set (recent_context ?H).
        context_item e =
          u ''Slide '' @ str_nat (entry_slide_number e) @ u '' ended with: ...'' @ prev_narration e \<and>
        length (prev_narration e) \<le> 150 \<and>
        suffix (prev_narration e) (entry_narration e)"
    by (simp add: context_item_def prev_narration_bound prev_narration_suffix)
  have 7: "\<exists>a' p' temp' n.
          (entry_slide_number h, Generate a' p' temp' (Text (Some n))) \<in> set tr \<and>
          strip n \<noteq> [] \<and> entry_narration h = strip n \<and>
          (out ! (entry_slide_number h - 1)) ''ai_narration'' = Some (PStr (strip n)) \<and>
          get_text (slides_data ! (entry_slide_number h - 1)) = Inr (entry_text h) \<and>
          5 \<le> length (entry_text h)"
    if h: "h \<in> set (conversation_history st')" for h
  proof -
    from narrate_slides_entry [OF assms(1) h] obtain a' p' temp' n where
      e: "(entry_slide_number h, Generate a' p' temp' (Text (Some n))) \<in> set tr"
        "strip n \<noteq> []" "entry_narration h = strip n"
        "(out ! (entry_slide_number h - 1)) ''ai_narration'' = Some (PStr (strip n))"
        "get_text (slides_data ! (entry_slide_number h - 1)) = Inr (entry_text h)"
      by blast
    from narrate_slides_call [OF assms(1) e(1)] e(5) have "5 \<le> length (entry_text h)"
      by auto
    with e show ?thesis by blast
  qed
  show ?thesis
    using 1 body_context_join [of ?H] recent_context_bound [of ?H] recent_context_suffix [of ?H]
      5 narrate_slides_history_sorted [OF assms(1)] 7
    by blast
qed

lemma deck_trace_body_call:
  "(2, Generate 1 (body_template 2 3 (body_context [entry_intro])
               (u ''Topic has grown 40% since 2020'') (prompt_style engaging))
            (Some 0.7) (Text (Some (u '' Welcome, everyone. '')))) \<in> set deck_trace"
  by (simp add: deck_trace_def)

lemma deck_trace_closer_call:
  "(3, Generate 1 (closer_template (closer_context [entry_intro, entry_growth])
               (u ''Thank you'') (prompt_style engaging))
            (Some 0.7) (Text (Some (u '' Welcome, everyone. '')))) \<in> set deck_trace"
  by (simp add: deck_trace_def)

lemma deck_history_before:
  "history_before 2
     (narrator_default\<lparr>conversation_history := [entry_intro, entry_growth, entry_thanks]\<rparr>)
   = [entry_intro]"
  "history_before 3
     (narrator_default\<lparr>conversation_history := [entry_intro, entry_growth, entry_thanks]\<rparr>)
   = [entry_intro, entry_growth]"
  by (simp_all add: history_before_def entry_intro_def entry_growth_def entry_thanks_def)

theorem body_prompt_context_witness:
  "narrate_slides canned_service None [slide_intro, slide_growth, slide_thanks] narrator_default =
     Inr ([set_narration slide_intro (u ''Welcome, everyone.''),
           set_narration slide_growth (u ''Welcome, everyone.''),
           set_narration slide_thanks (u ''Welcome, everyone.'')],
          narrator_default\<lparr>conversation_history := [entry_intro, entry_growth, entry_thanks]\<rparr>,
          deck_trace) \<and>
   (2, Generate 1 (body_template 2 3 (body_context [entry_intro])
               (u ''Topic has grown 40% since 2020'') (prompt_style engaging))
            (Some 0.7) (Text (Some (u '' Welcome, everyone. '')))) \<in> set deck_trace \<and>
   (2::nat) \<noteq> 1 \<and> 2 \<noteq> length [slide_intro, slide_growth, slide_thanks] \<and>
   history_before 2
     (narrator_default\<lparr>conversation_history := [entry_intro, entry_growth, entry_thanks]\<rparr>)
     = [entry_intro] \<and>
   body_context [entry_intro] = join (u ''\<newline>'') (map context_item (recent_context [entry_intro])) \<and>
   length (recent_context [entry_intro]) \<le> 2 \<and>
   suffix (recent_context [entry_intro]) [entry_intro] \<and>
   sorted_wrt (<) (map entry_slide_number [entry_intro, entry_growth, entry_thanks])"
proof -
  have n: "(2::nat) \<noteq> 1" "2 \<noteq> length [slide_intro, slide_growth, slide_thanks]" by simp_all
  from body_prompt_context [OF run_deck deck_trace_body_call n]
  have "body_context [entry_intro] =
       join (u ''\<newline>'') (map context_item (recent_context [entry_intro])) \<and>
     length (recent_context [entry_intro]) \<le> 2 \<and>
     suffix (recent_context [entry_intro]) [entry_intro] \<and>
     sorted_wrt (<) (map entry_slide_number [entry_intro, entry_growth, entry_thanks])"
    unfolding deck_history_before by simp
  with run_deck deck_trace_body_call n deck_history_before(1) show ?thesis by blast
qed

section \<open>The prompt of the last slide\<close>

lemma closer_has_signoff: "sublist signoff_instruction (closer_template c t d)"
  unfolding sublist_def closer_template_def
  by (intro exI [of _ "u ''You are concluding a presentation. This is the Final Slide.\<newline>'' @
     u ''Context from previous slide: '' @ c @ u ''\<newline>'' @
     u ''Final Slide Content: '' @ t @ u ''\<newline>\<newline>'' @
     u ''INSTRUCTIONS:\<newline>'' @
     u ''1. Briefly summarize the main takeaway.\<newline>'' @
     no_greeting_instruction"] exI [of _ "u ''Tone: '' @ d"]) simp

lemma closer_has_no_greeting: "sublist no_greeting_instruction (closer_template c t d)"
  unfolding sublist_def closer_template_def
  by (intro exI [of _ "u ''You are concluding a presentation. This is the Final Slide.\<newline>'' @
     u ''Context from previous slide: '' @ c @ u ''\<newline>'' @
     u ''Final Slide Content: '' @ t @ u ''\<newline>\<newline>'' @
     u ''INSTRUCTIONS:\<newline>'' @
     u ''1. Briefly summarize the main takeaway.\<newline>''"]
     exI [of _ "signoff_instruction @ u ''Tone: '' @ d"]) simp

lemma closer_has_context:
  "sublist (u ''Context from previous slide: '' @ c @ u ''\<newline>'') (closer_template c t d)"
  unfolding sublist_def closer_template_def
  by (intro exI [of _ "u ''You are concluding a presentation. This is the Final Slide.\<newline>''"]
     exI [of _ "u ''Final Slide Content: '' @ t @ u ''\<newline>\<newline>'' @
     u ''INSTRUCTIONS:\<newline>'' @
     u ''1. Briefly summarize the main takeaway.\<newline>'' @
     no_greeting_instruction @ signoff_instruction @ u ''Tone: '' @ d"]) simp

lemma history_before_sorted:
  "sorted_wrt (<) (map entry_slide_number (conversation_history st)) \<Longrightarrow>
   sorted_wrt (<) (map entry_slide_number (history_before k st))"
  by (simp add: history_before_def sorted_wrt_map sorted_wrt_filter)

text \<open>
  Claim C7. Take any generation call of a pass made for the last slide of a deck of more
  than one slide. Its prompt is the closer template: it holds the instruction to end with
  the exact sign-off, the instruction not to say the greeting, and the line of the context
  from the previous slide. That context is empty when no generation call for an earlier
  slide succeeded; otherwise it is the first 100 characters of the narration of the last
  history entry, followed by an ellipsis, and that entry is the narration generated for the
  latest earlier slide with a successful call.
\<close>

theorem closer_prompt_signoff:
  assumes "narrate_slides gen progress_callback slides_data st = Inr (out, st', tr)"
    and "(k, Generate a prompt temp r) \<in> set tr"
    and "k = length slides_data" and "1 < length slides_data"
  shows "(\<exists>t. get_text (slides_data ! (k - 1)) = Inr t \<and>
        prompt = closer_template (closer_context (history_before k st')) t
                   (prompt_style (get_style_config (self_style st)))) \<and>
     sublist signoff_instruction prompt \<and>
     sublist no_greeting_instruction prompt \<and>
     sublist (u ''Context from previous slide: '' @ closer_context (history_before k st') @ u ''\<newline>'')
       prompt \<and>
     ((\<exists>j a' p' temp' r'. j < k \<and> (j, Generate a' p' temp' r') \<in> set tr \<and>
          outcome_of r' = Success) \<longleftrightarrow> history_before k st' \<noteq> []) \<and>
     (history_before k st' = [] \<longrightarrow> closer_context (history_before k st') = []) \<and>
     (history_before k st' \<noteq> [] \<longrightarrow>
        closer_context (history_before k st') =
          u ''Previous slide discussed: '' @
          take 100 (entry_narration (last (history_before k st'))) @ u ''...'' \<and>
        entry_slide_number (last (history_before k st')) < k \<and>
        (\<exists>a' p' temp' n.
           (entry_slide_number (last (history_before k st')), Generate a' p' temp' (Text (Some n)))
             \<in> set tr \<and>
           strip n \<noteq> [] \<and> entry_narration (last (history_before k st')) = strip n) \<and>
        (\<forall>j a' p' temp' r'.
           entry_slide_number (last (history_before k st')) < j \<and> j < k \<and>
           (j, Generate a' p' temp' r') \<in> set tr \<longrightarrow> outcome_of r' \<noteq> Success))"
proof -
  let ?H = "history_before k st'"
  let ?d = "prompt_style (get_style_config (self_style st))"
  from narrate_slides_call [OF assms(1,2)] obtain t where
    t: "get_text (slides_data ! (k - 1)) = Inr t" and
    p: "prompt = build_context_aware_prompt
             (st\<lparr>conversation_history :=
                  filter (\<lambda>e. entry_slide_number e < k) (conversation_history st')\<rparr>)
             t k (length slides_data) (k = 1 \<or> length (split t) < 15)"
    by blast
  have k1: "k \<noteq> 1" using assms(3,4) by simp
  have pe: "prompt = closer_template (closer_context ?H) t ?d"
    using p k1 assms(3) build_prompt_closer [where n = k and st = st] by (simp add: history_before_def)
  have 1: "\<exists>t. get_text (slides_data ! (k - 1)) = Inr t \<and>
        prompt = closer_template (closer_context ?H) t ?d"
    using t pe by blast
  have 2: "sublist signoff_instruction prompt" "sublist no_greeting_instruction prompt"
    "sublist (u ''Context from previous slide: '' @ closer_context ?H @ u ''\<newline>'') prompt"
    unfolding pe by (rule closer_has_signoff closer_has_no_greeting closer_has_context)+
  have srt: "sorted_wrt (<) (map entry_slide_number ?H)"
    using narrate_slides_history_sorted [OF assms(1)] by (rule history_before_sorted)
  have mem: "h \<in> set ?H \<longleftrightarrow> h \<in> set (conversation_history st') \<and> entry_slide_number h < k" for h
    by (simp add: history_before_def)
  have 3: "(\<exists>j a' p' temp' r'. j < k \<and> (j, Generate a' p' temp' r') \<in> set tr \<and>
          outcome_of r' = Success) \<longleftrightarrow> ?H \<noteq> []"
  proof
    assume "\<exists>j a' p' temp' r'. j < k \<and> (j, Generate a' p' temp' r') \<in> set tr \<and>
          outcome_of r' = Success"
    then obtain j a' p' temp' r' where
      j: "j < k" "(j, Generate a' p' temp' r') \<in> set tr" "outcome_of r' = Success"
      by blast
    from narrate_slides_success_entry [OF assms(1) j(2,3)] obtain h where
      "h \<in> set (conversation_history st')" "entry_slide_number h = j"
      by blast
    with j(1) have "h \<in> set ?H" by (simp add: mem)
    then show "?H \<noteq> []" by auto
  next
    assume "?H \<noteq> []"
    then obtain h where h: "h \<in> set ?H" by (cases ?H) auto
    then have hh: "h \<in> set (conversation_history st')" "entry_slide_number h < k"
      by (simp_all add: mem)
    from narrate_slides_entry [OF assms(1) hh(1)] obtain a' p' temp' n where
      "(entry_slide_number h, Generate a' p' temp' (Text (Some n))) \<in> set tr" "strip n \<noteq> []"
      by blast
    moreover from this(2) have "outcome_of (Text (Some n)) = Success"
      using outcome_success by blast
    ultimately show "\<exists>j a' p' temp' r'. j < k \<and> (j, Generate a' p' temp' r') \<in> set tr \<and>
          outcome_of r' = Success"
      using hh(2) by blast
  qed
  have 4: "?H = [] \<longrightarrow> closer_context ?H = []"
    by (simp add: closer_context_def)
  have 5: "closer_context ?H =
          u ''Previous slide discussed: '' @ take 100 (entry_narration (last ?H)) @ u ''...'' \<and>
        entry_slide_number (last ?H) < k \<and>
        (\<exists>a' p' temp' n.
           (entry_slide_number (last ?H), Generate a' p' temp' (Text (Some n))) \<in> set tr \<and>
           strip n \<noteq> [] \<and> entry_narration (last ?H) = strip n) \<and>
        (\<forall>j a' p' temp' r'.
           entry_slide_number (last ?H) < j \<and> j < k \<and>
           (j, Generate a' p' temp' r') \<in> set tr \<longrightarrow> outcome_of r' \<noteq> Success)"
    if ne: "?H \<noteq> []"
  proof -
    from ne have l: "last ?H \<in> set ?H" by simp
    then have ll: "last ?H \<in> set (conversation_history st')" "entry_slide_number (last ?H) < k"
      by (simp_all add: mem)
    have a: "closer_context ?H =
          u ''Previous slide discussed: '' @ take 100 (entry_narration (last ?H)) @ u ''...''"
      using ne by (simp add: closer_context_def)
    from narrate_slides_entry [OF assms(1) ll(1)]
    have b: "\<exists>a' p' temp' n.
           (entry_slide_number (last ?H), Generate a' p' temp' (Text (Some n))) \<in> set tr \<and>
           strip n \<noteq> [] \<and> entry_narration (last ?H) = strip n"
      by blast
    have c: "outcome_of r' \<noteq> Success"
      if j: "entry_slide_number (last ?H) < j" "j < k" "(j, Generate a' p' temp' r') \<in> set tr"
      for j a' p' temp' r'
    proof
      assume "outcome_of r' = Success"
      from narrate_slides_success_entry [OF assms(1) j(3) this] obtain h where
        "h \<in> set (conversation_history st')" "entry_slide_number h = j"
        by blast
      with j(2) have "h \<in> set ?H" by (simp add: mem)
      from sorted_last_greatest [OF srt this] \<open>entry_slide_number h = j\<close> j(1)
      show False by simp
    qed
    from a ll(2) b c show ?thesis by blast
  qed
  from 1 2 3 4 5 show ?thesis by blast
qed

theorem closer_prompt_signoff_witness:
  "narrate_slides canned_service None [slide_intro, slide_growth, slide_thanks] narrator_default =
     Inr ([set_narration slide_intro (u ''Welcome, everyone.''),
           set_narration slide_growth (u ''Welcome, everyone.''),
           set_narration slide_thanks (u ''Welcome, everyone.'')],
          narrator_default\<lparr>conversation_history := [entry_intro, entry_growth, entry_thanks]\<rparr>,
          deck_trace) \<and>
   (3, Generate 1 (closer_template (closer_context [entry_intro, entry_growth])
               (u ''Thank you'') (prompt_style engaging))
            (Some 0.7) (Text (Some (u '' Welcome, everyone. '')))) \<in> set deck_trace \<and>
   3 = length [slide_intro, slide_growth, slide_thanks] \<and>
   1 < length [slide_intro, slide_growth, slide_thanks] \<and>
   history_before 3
     (narrator_default\<lparr>conversation_history := [entry_intro, entry_growth, entry_thanks]\<rparr>)
     = [entry_intro, entry_growth] \<and>
   sublist signoff_instruction
     (closer_template (closer_context [entry_intro, entry_growth])
               (u ''Thank you'') (prompt_style engaging)) \<and>
   sublist no_greeting_instruction
     (closer_template (closer_context [entry_intro, entry_growth])
               (u ''Thank you'') (prompt_style engaging)) \<and>
   closer_context [entry_intro, entry_growth] =
     u ''Previous slide discussed: '' @ take 100 (entry_narration entry_growth) @ u ''...''"
proof -
  have k: "3 = length [slide_intro, slide_growth, slide_thanks]"
    "1 < length [slide_intro, slide_growth, slide_thanks]"
    by simp_all
  note th = closer_prompt_signoff [OF run_deck deck_trace_closer_call k,
      unfolded deck_history_before]
  have ne: "[entry_intro, entry_growth] \<noteq> []" by simp
  have la: "last [entry_intro, entry_growth] = entry_growth" by simp
  from th have s1: "sublist signoff_instruction
     (closer_template (closer_context [entry_intro, entry_growth])
               (u ''Thank you'') (prompt_style engaging))"
    by blast
  from th have s2: "sublist no_greeting_instruction
     (closer_template (closer_context [entry_intro, entry_growth])
               (u ''Thank you'') (prompt_style engaging))"
    by blast
  from th ne have "closer_context [entry_intro, entry_growth] =
     u ''Previous slide discussed: '' @
     take 100 (entry_narration (last [entry_intro, entry_growth])) @ u ''...''"
    by blast
  then have c: "closer_context [entry_intro, entry_growth] =
     u ''Previous slide discussed: '' @ take 100 (entry_narration entry_growth) @ u ''...''"
    unfolding la .
  from run_deck deck_trace_closer_call k deck_history_before(2) s1 s2 c show ?thesis by blast
qed

end
